theory Spec2Isabelle
  imports Main "HOL-Library.Word"
begin

section \<open>Python values, exceptions and strings\<close>

text \<open>
  The agent of \<^verbatim>\<open>main.py\<close> and \<^verbatim>\<open>experimental.py\<close> (class \<^verbatim>\<open>GroqWebScraper\<close>)
  moves the values that \<^verbatim>\<open>json.loads\<close> returns through its loop: the reply of the chat
  endpoint, the decoded action and its fields. \<open>pyval\<close> is that universe of values.
  A Python float is its 64 bit pattern; a dict is the list of its items.
  A Python \<^verbatim>\<open>str\<close> is modelled as a \<open>string\<close>, one \<open>char\<close> per character.
\<close>

datatype pyval =
    PNone
  | PBool bool
  | PInt int
  | PFloat "64 word"
  | PStr string
  | PList "pyval list"
  | PDict "(string \<times> pyval) list"

text \<open>
  An exception is its class, as far as an \<^verbatim>\<open>except\<close> clause of the source tells classes
  apart, and the text \<^verbatim>\<open>str(e)\<close>. A function that can raise returns \<open>exn + 'a\<close>.
\<close>

datatype exn =
    IndexError string
  | JSONDecodeError string
  | KeyError string
  | TypeError string
  | AttributeError string
  | OtherException string

fun exn_str :: "exn \<Rightarrow> string" where
  "exn_str (IndexError m) = m"
| "exn_str (JSONDecodeError m) = m"
| "exn_str (KeyError m) = m"
| "exn_str (TypeError m) = m"
| "exn_str (AttributeError m) = m"
| "exn_str (OtherException m) = m"

fun try_then :: "exn + 'a \<Rightarrow> ('a \<Rightarrow> exn + 'b) \<Rightarrow> exn + 'b" where
  "try_then (Inl e) f = Inl e"
| "try_then (Inr x) f = f x"

fun type_name :: "pyval \<Rightarrow> string" where
  "type_name PNone = ''NoneType''"
| "type_name (PBool b) = ''bool''"
| "type_name (PInt i) = ''int''"
| "type_name (PFloat w) = ''float''"
| "type_name (PStr s) = ''str''"
| "type_name (PList xs) = ''list''"
| "type_name (PDict kvs) = ''dict''"

definition quoted :: "string \<Rightarrow> string" where
  "quoted s = [CHR 0x27] @ s @ [CHR 0x27]"

definition not_subscriptable :: "pyval \<Rightarrow> exn" where
  "not_subscriptable v = TypeError (quoted (type_name v) @ '' object is not subscriptable'')"

definition no_attribute :: "pyval \<Rightarrow> string \<Rightarrow> exn" where
  "no_attribute v a =
     AttributeError (quoted (type_name v) @ '' object has no attribute '' @ quoted a)"

text \<open>
  \<^verbatim>\<open>v[k]\<close> for a string literal \<open>k\<close>. Every key the source uses is a plain
  identifier, whose \<^verbatim>\<open>repr\<close> is the key in single quotes; the messages are CPython 3.11's.
\<close>

fun subscript :: "pyval \<Rightarrow> string \<Rightarrow> exn + pyval" where
  "subscript (PDict kvs) k =
     (case map_of kvs k of None \<Rightarrow> Inl (KeyError (quoted k)) | Some v \<Rightarrow> Inr v)"
| "subscript (PList xs) k =
     Inl (TypeError ''list indices must be integers or slices, not str'')"
| "subscript (PStr s) k =
     Inl (TypeError (''string indices must be integers, not '' @ quoted ''str''))"
| "subscript v k = Inl (not_subscriptable v)"

text \<open>\<^verbatim>\<open>v[0]\<close>.\<close>

fun subscript0 :: "pyval \<Rightarrow> exn + pyval" where
  "subscript0 (PList []) = Inl (IndexError ''list index out of range'')"
| "subscript0 (PList (x # xs)) = Inr x"
| "subscript0 (PStr []) = Inl (IndexError ''string index out of range'')"
| "subscript0 (PStr (c # cs)) = Inr (PStr [c])"
| "subscript0 (PDict kvs) = Inl (KeyError ''0'')"
| "subscript0 v = Inl (not_subscriptable v)"

text \<open>\<^verbatim>\<open>v.get(k)\<close>: only a dict has the method.\<close>

fun dict_get :: "pyval \<Rightarrow> string \<Rightarrow> exn + pyval" where
  "dict_get (PDict kvs) k = Inr (case map_of kvs k of None \<Rightarrow> PNone | Some v \<Rightarrow> v)"
| "dict_get v k = Inl (no_attribute v ''get'')"

text \<open>Truthiness, as \<^verbatim>\<open>if v:\<close> tests it; both float zeros are false.\<close>

fun truthy :: "pyval \<Rightarrow> bool" where
  "truthy PNone = False"
| "truthy (PBool b) = b"
| "truthy (PInt i) = (i \<noteq> 0)"
| "truthy (PFloat w) = (w \<noteq> 0 \<and> w \<noteq> 0x8000000000000000)"
| "truthy (PStr s) = (s \<noteq> [])"
| "truthy (PList xs) = (xs \<noteq> [])"
| "truthy (PDict kvs) = (kvs \<noteq> [])"

subsection \<open>String methods\<close>

text \<open>\<^verbatim>\<open>s.startswith(p)\<close>.\<close>

fun startswith :: "string \<Rightarrow> string \<Rightarrow> bool" where
  "startswith s [] = True"
| "startswith [] (p # ps) = False"
| "startswith (c # cs) (p # ps) = (c = p \<and> startswith cs ps)"

text \<open>
  The index of the first and of the last occurrence of \<open>sub\<close> in \<open>s\<close>;
  \<^verbatim>\<open>s.find(sub)\<close> and \<^verbatim>\<open>s.rfind(sub)\<close> return \<open>-1\<close> when there is none.
\<close>

fun find_str :: "string \<Rightarrow> string \<Rightarrow> nat option" where
  "find_str sub [] = (if sub = [] then Some 0 else None)"
| "find_str sub (c # cs) =
     (if startswith (c # cs) sub then Some 0 else map_option Suc (find_str sub cs))"

fun rfind_str :: "string \<Rightarrow> string \<Rightarrow> nat option" where
  "rfind_str sub [] = (if sub = [] then Some 0 else None)"
| "rfind_str sub (c # cs) =
     (case rfind_str sub cs of
        Some j \<Rightarrow> Some (Suc j)
      | None \<Rightarrow> if startswith (c # cs) sub then Some 0 else None)"

definition py_find :: "string \<Rightarrow> string \<Rightarrow> int" where
  "py_find s sub = (case find_str sub s of None \<Rightarrow> - 1 | Some i \<Rightarrow> int i)"

definition py_rfind :: "string \<Rightarrow> string \<Rightarrow> int" where
  "py_rfind s sub = (case rfind_str sub s of None \<Rightarrow> - 1 | Some i \<Rightarrow> int i)"

text \<open>
  \<^verbatim>\<open>s[start:stop]\<close>: a negative bound counts from the end, and both bounds are
  clamped to the string.
\<close>

definition slice_bound :: "nat \<Rightarrow> int \<Rightarrow> nat" where
  "slice_bound n x = (if x < 0 then nat (max (x + int n) 0) else min (nat x) n)"

definition py_slice :: "string \<Rightarrow> int \<Rightarrow> int \<Rightarrow> string" where
  "py_slice s start stop =
     (let lo = slice_bound (length s) start; hi = slice_bound (length s) stop
      in take (hi - lo) (drop lo s))"

text \<open>
  \<^verbatim>\<open>s.split(sep)\<close> for a separator that is not empty (the source splits at two
  literals only).
\<close>

function split_str :: "string \<Rightarrow> string \<Rightarrow> string list" where
  "split_str s sep =
     (if sep = [] then [s]
      else case find_str sep s of
             None \<Rightarrow> [s]
           | Some i \<Rightarrow> take i s # split_str (drop (i + length sep) s) sep)"
  by pat_completeness auto
termination
proof (relation "measure (\<lambda>(s, sep). length s)")
  fix s sep :: string and i :: nat
  assume "sep \<noteq> []" and "find_str sep s = Some i"
  then have "s \<noteq> []"
    by (cases s) auto
  with \<open>sep \<noteq> []\<close> show "((drop (i + length sep) s, sep), (s, sep)) \<in> measure (\<lambda>(s, sep). length s)"
    by simp
qed simp

declare split_str.simps [simp del]

text \<open>\<^verbatim>\<open>xs[i]\<close> on a list of strings.\<close>

definition index :: "string list \<Rightarrow> nat \<Rightarrow> exn + string" where
  "index xs i = (if i < length xs then Inr (xs ! i) else Inl (IndexError ''list index out of range''))"

text \<open>
  \<^verbatim>\<open>s.strip()\<close>. The white space among the first 256 code points is 9 to 13, 28 to
  32, 133 and 160.
\<close>

definition is_space :: "char \<Rightarrow> bool" where
  "is_space c = ((of_char c :: nat) \<in> {9, 10, 11, 12, 13, 28, 29, 30, 31, 32, 133, 160})"

definition strip :: "string \<Rightarrow> string" where
  "strip s = rev (dropWhile is_space (rev (dropWhile is_space s)))"

text \<open>\<^verbatim>\<open>sep.join(xs)\<close>.\<close>

fun join :: "string \<Rightarrow> string list \<Rightarrow> string" where
  "join sep [] = []"
| "join sep [x] = x"
| "join sep (x # y # ys) = x @ sep @ join sep (y # ys)"

section \<open>The world outside the program\<close>

text \<open>
  A parsed document, as far as \<^verbatim>\<open>decompose\<close> and \<^verbatim>\<open>get_text\<close> look at it:
  \<^item> \<open>Text s\<close>, a text node of class \<^verbatim>\<open>NavigableString\<close> or \<^verbatim>\<open>CData\<close>;
  \<^item> \<open>Contained t s\<close>, a string that lies in a \<^verbatim>\<open>script\<close>, \<^verbatim>\<open>style\<close>,
    \<^verbatim>\<open>template\<close>, \<^verbatim>\<open>rt\<close> or \<^verbatim>\<open>rp\<close> element \<open>t\<close>: the parser gives it the string
    class of that container (bs4 4.11 and later);
  \<^item> \<open>Comment s\<close>, a string that \<^verbatim>\<open>get_text\<close> never returns (a comment, a doctype);
  \<^item> an element with its name, attributes and children.
\<close>

datatype node =
    Text string
  | Contained string string
  | Comment string
  | Element string "(string \<times> string) list" "node list"

record message =
  role :: string
  content :: string

text \<open>
  What the program calls and does not define is a parameter of the model: the chat
  endpoint, \<^verbatim>\<open>json\<close>, \<^verbatim>\<open>requests\<close>, Playwright, BeautifulSoup's parser and
  selector engine, \<^verbatim>\<open>uuid4\<close> and \<^verbatim>\<open>str()\<close> of a value that is not a string.
  A call that can give another answer each time takes the number of calls made before
  it. The two prompt constants are parameters as well: no function reads their text.

  \<^item> \<open>session_post_json n messages\<close>: \<^verbatim>\<open>self.session.post(self.base_url,
    json=self._create_groq_payload(messages)).json()\<close>, the \<open>n\<close>-th request of one
    \<^verbatim>\<open>execute_agent_loop\<close>; the payload is \<open>messages\<close> and constants.
  \<^item> \<open>http_get n url\<close>: \<^verbatim>\<open>requests.get(url, timeout=15)\<close>, \<^verbatim>\<open>raise_for_status()\<close>
    and \<^verbatim>\<open>response.text\<close> in step \<open>n\<close>.
  \<^item> \<open>browser_content n url sel\<close>: the Playwright block of
    \<^verbatim>\<open>fetch_dynamic_content\<close> in step \<open>n\<close>; \<open>sel\<close> is the selector waited for, if any.
  \<^item> \<open>html_parser markup\<close>: the nodes that \<^verbatim>\<open>BeautifulSoup(markup, "html.parser")\<close>
    puts below its root, or the exception it raises.
  \<^item> \<open>css_select soup selector\<close>: \<^verbatim>\<open>soup.select(selector)\<close>.
  \<^item> \<open>uuid4 n\<close>: \<^verbatim>\<open>str(uuid4())\<close>, the \<open>n\<close>-th call.
\<close>

record env =
  session_post_json :: "nat \<Rightarrow> message list \<Rightarrow> exn + pyval"
  json_loads :: "string \<Rightarrow> exn + pyval"
  json_dumps :: "string list \<Rightarrow> string"
  py_str :: "pyval \<Rightarrow> string"
  http_get :: "nat \<Rightarrow> pyval \<Rightarrow> exn + string"
  browser_content :: "nat \<Rightarrow> pyval \<Rightarrow> pyval option \<Rightarrow> exn + string"
  html_parser :: "pyval \<Rightarrow> exn + node list"
  css_select :: "node \<Rightarrow> pyval \<Rightarrow> exn + node list"
  uuid4 :: "nat \<Rightarrow> string"
  GROQ_SYSTEM_PROMPT :: string
  FORMATTING_SYSTEM_PROMPT :: string

text \<open>A value inside an f-string: \<^verbatim>\<open>f"{v}"\<close>.\<close>

definition fmt :: "env \<Rightarrow> pyval \<Rightarrow> string" where
  "fmt env v = (case v of PStr s \<Rightarrow> s | _ \<Rightarrow> py_str env v)"

section \<open>The adapters (both files)\<close>

subsection \<open>\<^verbatim>\<open>_clean_html\<close>\<close>

definition max_html_length :: nat where
  "max_html_length = 6000"

definition unwanted_tags :: "string list" where
  "unwanted_tags = [''script'', ''style'', ''svg'', ''nav'', ''footer'', ''header'', ''form'']"

fun is_tag :: "string \<Rightarrow> node \<Rightarrow> bool" where
  "is_tag t (Element n as cs) = (n = t)"
| "is_tag t x = False"

text \<open>
  \<^verbatim>\<open>for element in soup.find_all(tag): element.decompose()\<close>: every element named
  \<open>tag\<close> below the root leaves the tree with all it holds.
\<close>

fun decompose_all :: "string \<Rightarrow> node \<Rightarrow> node" where
  "decompose_all t (Element n as cs) =
     Element n as (map (decompose_all t) (filter (\<lambda>c. \<not> is_tag t c) cs))"
| "decompose_all t x = x"

text \<open>
  \<^verbatim>\<open>BeautifulSoup(markup, "html.parser")\<close>: the object is the root element of the
  tree, named \<^verbatim>\<open>[document]\<close>.
\<close>

definition beautiful_soup :: "env \<Rightarrow> pyval \<Rightarrow> exn + node" where
  "beautiful_soup env markup =
     (case html_parser env markup of
        Inl e \<Rightarrow> Inl e
      | Inr nodes \<Rightarrow> Inr (Element ''[document]'' [] nodes))"

text \<open>
  \<^verbatim>\<open>get_text(separator=sep, strip=True)\<close> of a node: the strings below it in document
  order that have one of the node's interesting string classes, each stripped, the
  empty ones dropped, joined by \<open>sep\<close>. The interesting classes of a container element
  are its own string class (\<open>Some\<close> of its name); those of every other node are the two
  classes of text nodes (\<open>None\<close>).
\<close>

definition string_containers :: "string list" where
  "string_containers = [''rt'', ''rp'', ''style'', ''script'', ''template'']"

fun interesting_string_types :: "node \<Rightarrow> string option" where
  "interesting_string_types (Element n as cs) =
     (if n \<in> set string_containers then Some n else None)"
| "interesting_string_types x = None"

fun all_strings :: "string option \<Rightarrow> node \<Rightarrow> string list" where
  "all_strings types (Text s) = (if types = None \<and> strip s \<noteq> [] then [strip s] else [])"
| "all_strings types (Contained t s) =
     (if types = Some t \<and> strip s \<noteq> [] then [strip s] else [])"
| "all_strings types (Comment s) = []"
| "all_strings types (Element n as cs) = concat (map (all_strings types) cs)"

definition get_text :: "string \<Rightarrow> node \<Rightarrow> string" where
  "get_text sep n = join sep (all_strings (interesting_string_types n) n)"

text \<open>\<^verbatim>\<open>_clean_html\<close>. Nothing in it is caught: what the parser raises, it raises.\<close>

definition clean_html :: "env \<Rightarrow> string \<Rightarrow> exn + string" where
  "clean_html env html =
     (case beautiful_soup env (PStr html) of
        Inl e \<Rightarrow> Inl e
      | Inr soup \<Rightarrow>
          Inr (take max_html_length
                 (get_text ''\<newline>'' (foldl (\<lambda>s tag. decompose_all tag s) soup unwanted_tags))))"

text \<open>
  For the statement about \<^verbatim>\<open>_clean_html\<close>: where the text of a document comes from.
  \<open>located_texts\<close> lists the text nodes of a tree in document order, each with the names
  of the elements it lies in, outermost first; \<open>document_texts\<close> does so for the nodes
  of a document. \<open>visible_texts\<close> are those that lie in no unwanted element and are not
  blank.
\<close>

fun located_texts :: "node \<Rightarrow> (string list \<times> string) list" where
  "located_texts (Text s) = [([], s)]"
| "located_texts (Contained t s) = []"
| "located_texts (Comment s) = []"
| "located_texts (Element n as cs) =
     map (\<lambda>(anc, s). (n # anc, s)) (concat (map located_texts cs))"

definition document_texts :: "node list \<Rightarrow> (string list \<times> string) list" where
  "document_texts nodes = concat (map located_texts nodes)"

definition visible_texts :: "node list \<Rightarrow> (string list \<times> string) list" where
  "visible_texts nodes =
     filter (\<lambda>(anc, s). set anc \<inter> set unwanted_tags = {} \<and> strip s \<noteq> []) (document_texts nodes)"

subsection \<open>\<^verbatim>\<open>fetch_website\<close>, \<^verbatim>\<open>fetch_dynamic_content\<close>, \<^verbatim>\<open>extract_data\<close>\<close>

text \<open>Each adapter catches every exception of its body and returns a classified string.\<close>

definition fetch_website :: "env \<Rightarrow> nat \<Rightarrow> pyval \<Rightarrow> string" where
  "fetch_website env n url =
     (case try_then (http_get env n url) (clean_html env) of
        Inl e \<Rightarrow> ''FETCH_ERROR: '' @ exn_str e
      | Inr text \<Rightarrow> text)"

definition fetch_dynamic_content :: "env \<Rightarrow> nat \<Rightarrow> pyval \<Rightarrow> pyval \<Rightarrow> string" where
  "fetch_dynamic_content env n url wait_for =
     (case try_then (browser_content env n url (if truthy wait_for then Some wait_for else None))
             (clean_html env) of
        Inl e \<Rightarrow> ''RENDER_ERROR: '' @ exn_str e
      | Inr text \<Rightarrow> text)"

definition extract_data :: "env \<Rightarrow> pyval \<Rightarrow> pyval \<Rightarrow> string list" where
  "extract_data env html selector =
     (case try_then (beautiful_soup env html) (\<lambda>soup. css_select env soup selector) of
        Inl e \<Rightarrow> [''EXTRACTION_ERROR: '' @ exn_str e]
      | Inr elems \<Rightarrow> map (get_text []) elems)"

section \<open>The agent loop\<close>

text \<open>
  One pass of the body of \<^verbatim>\<open>for _ in range(max_steps)\<close> either returns from the
  function or falls through to the next pass with a new state. A run records the value
  returned from inside the loop, if any, the number of passes begun, and the state in
  which the last pass began (or, when the range is used up, the state it left).
\<close>

datatype 's step_result = Return pyval | Continue 's

record 's run =
  returned :: "pyval option"
  steps :: nat
  final :: 's

fun for_range :: "(nat \<Rightarrow> 's \<Rightarrow> 's step_result) \<Rightarrow> nat \<Rightarrow> nat \<Rightarrow> 's \<Rightarrow> 's run" where
  "for_range body 0 i st = \<lparr>returned = None, steps = i, final = st\<rparr>"
| "for_range body (Suc n) i st =
     (case body i st of
        Return v \<Rightarrow> \<lparr>returned = Some v, steps = Suc i, final = st\<rparr>
      | Continue st' \<Rightarrow> for_range body n (Suc i) st')"

definition max_steps :: nat where
  "max_steps = 5"

text \<open>The statement after the loop.\<close>

definition answer :: "'s run \<Rightarrow> pyval" where
  "answer r =
     (case returned r of
        Some v \<Rightarrow> v
      | None \<Rightarrow> PStr ''MAX_STEPS_REACHED: Processing limit exceeded'')"

text \<open>\<^verbatim>\<open>except Exception as e: return f"AGENT_ERROR: {str(e)}"\<close>.\<close>

definition catch_agent_error :: "exn + 's step_result \<Rightarrow> 's step_result" where
  "catch_agent_error r =
     (case r of Inl e \<Rightarrow> Return (PStr (''AGENT_ERROR: '' @ exn_str e)) | Inr x \<Rightarrow> x)"

text \<open>\<^verbatim>\<open>response["choices"][0]["message"]["content"]\<close>.\<close>

definition chat_content :: "pyval \<Rightarrow> exn + pyval" where
  "chat_content response =
     try_then (subscript response ''choices'') (\<lambda>choices.
     try_then (subscript0 choices) (\<lambda>choice.
     try_then (subscript choice ''message'') (\<lambda>m. subscript m ''content'')))"

text \<open>
  The reply of the model in pass \<open>i\<close>: the request and the content of its answer. The
  loop also prints the reply; the model leaves standard output out.
\<close>

definition llm_message :: "env \<Rightarrow> nat \<Rightarrow> message list \<Rightarrow> exn + pyval" where
  "llm_message env i history = try_then (session_post_json env i history) chat_content"

definition assistant :: "string \<Rightarrow> message" where
  "assistant text = \<lparr>role = ''assistant'', content = text\<rparr>"

definition seed_conversation :: "env \<Rightarrow> string \<Rightarrow> message list" where
  "seed_conversation env user_query =
     [\<lparr>role = ''system'', content = GROQ_SYSTEM_PROMPT env\<rparr>,
      \<lparr>role = ''user'', content = user_query\<rparr>]"

text \<open>The exceptions that the decoders' \<^verbatim>\<open>except (IndexError, json.JSONDecodeError)\<close> catches.\<close>

fun is_decode_failure :: "exn \<Rightarrow> bool" where
  "is_decode_failure (IndexError m) = True"
| "is_decode_failure (JSONDecodeError m) = True"
| "is_decode_failure e = False"

definition response_action :: "string \<Rightarrow> pyval" where
  "response_action text = PDict [(''action'', PStr ''response''), (''content'', PStr text)]"

subsection \<open>\<^verbatim>\<open>main.py\<close>\<close>

text \<open>
  \<^verbatim>\<open>_parse_llm_response\<close> of \<^verbatim>\<open>main.py\<close>: the text between the first
  \<^verbatim>\<open>```json\<close> and the next fence, stripped and parsed; when there is no such
  fence or the text does not parse, the whole reply becomes the content of a
  \<^verbatim>\<open>response\<close> action. A reply that is not a string has no \<^verbatim>\<open>split\<close>.
\<close>

definition main_json_str :: "string \<Rightarrow> exn + string" where
  "main_json_str response =
     try_then (index (split_str response ''```json'') 1) (\<lambda>rest.
     try_then (index (split_str rest ''```'') 0) (\<lambda>block. Inr (strip block)))"

definition main_parse_llm_response :: "env \<Rightarrow> pyval \<Rightarrow> exn + pyval" where
  "main_parse_llm_response env response =
     (case response of
        PStr s \<Rightarrow>
          (case try_then (main_json_str s) (json_loads env) of
             Inr v \<Rightarrow> Inr v
           | Inl e \<Rightarrow> if is_decode_failure e then Inr (response_action s) else Inl e)
      | _ \<Rightarrow> Inl (no_attribute response ''split''))"

definition main_dispatch :: "env \<Rightarrow> nat \<Rightarrow> message list \<Rightarrow> pyval \<Rightarrow> exn + message list step_result" where
  "main_dispatch env i history action =
     try_then (subscript action ''action'') (\<lambda>a.
       if a = PStr ''response'' then
         try_then (subscript action ''content'') (\<lambda>c. Inr (Return c))
       else if a = PStr ''fetch'' then
         try_then (subscript action ''url'') (\<lambda>url.
           Inr (Continue (history @
             [assistant (''Fetched content from '' @ fmt env url @ '':\<newline>''
                @ fetch_website env i url)])))
       else if a = PStr ''render'' then
         try_then (subscript action ''url'') (\<lambda>url.
         try_then (dict_get action ''wait_for'') (\<lambda>wait_for.
           Inr (Continue (history @
             [assistant (''Rendered content from '' @ fmt env url @ '':\<newline>''
                @ fetch_dynamic_content env i url wait_for)]))))
       else if a = PStr ''extract'' then
         try_then (subscript action ''html'') (\<lambda>html.
         try_then (subscript action ''selector'') (\<lambda>selector.
           Inr (Continue (history @
             [assistant (''Extraction results using '' @ quoted (fmt env selector)
                @ '':\<newline>'' @ json_dumps env (extract_data env html selector))]))))
       else Inr (Return (PStr ''ERROR: Invalid action requested'')))"

definition main_step :: "env \<Rightarrow> nat \<Rightarrow> message list \<Rightarrow> message list step_result" where
  "main_step env i history =
     catch_agent_error
       (try_then (llm_message env i history) (\<lambda>reply.
        try_then (main_parse_llm_response env reply) (main_dispatch env i history)))"

definition main_loop :: "env \<Rightarrow> string \<Rightarrow> message list run" where
  "main_loop env user_query =
     for_range (main_step env) max_steps 0 (seed_conversation env user_query)"

definition main_execute_agent_loop :: "env \<Rightarrow> string \<Rightarrow> pyval" where
  "main_execute_agent_loop env user_query = answer (main_loop env user_query)"

subsection \<open>\<^verbatim>\<open>experimental.py\<close>\<close>

text \<open>
  The scraper object keeps its content store between calls; the conversation lives for
  one call of \<^verbatim>\<open>_run_scraping_operations\<close>. \<open>uuid_calls\<close> counts the keys minted so far.
\<close>

record agent =
  conversation_history :: "message list"
  content_store :: "string \<rightharpoonup> string"
  uuid_calls :: nat

text \<open>\<^verbatim>\<open>_store_content\<close>: a new key, the payload stored under it, the key returned.\<close>

definition store_content :: "env \<Rightarrow> agent \<Rightarrow> string \<Rightarrow> string \<times> agent" where
  "store_content env self payload =
     (let content_id = uuid4 env (uuid_calls self)
      in (content_id,
          self\<lparr>content_store := (content_store self)(content_id \<mapsto> payload),
               uuid_calls := Suc (uuid_calls self)\<rparr>))"

text \<open>
  \<^verbatim>\<open>self.content_store.get(key)\<close>: the keys of the store are strings, a list or a dict
  cannot be hashed, and no other value equals a string.
\<close>

fun store_get :: "(string \<rightharpoonup> string) \<Rightarrow> pyval \<Rightarrow> exn + string option" where
  "store_get store (PStr k) = Inr (store k)"
| "store_get store (PList xs) = Inl (TypeError (''unhashable type: '' @ quoted ''list''))"
| "store_get store (PDict kvs) = Inl (TypeError (''unhashable type: '' @ quoted ''dict''))"
| "store_get store v = Inr None"

text \<open>The keys that \<^verbatim>\<open>_store_content\<close> has handed out so far.\<close>

definition issued :: "env \<Rightarrow> agent \<Rightarrow> string set" where
  "issued env self = uuid4 env ` {..<uuid_calls self}"

text \<open>
  \<^verbatim>\<open>_parse_llm_response\<close> of \<^verbatim>\<open>experimental.py\<close>: the text between the first two
  fences, without a leading \<^verbatim>\<open>json\<close> line; when that fails, the span from the first
  \<^verbatim>\<open>{\<close> to the last \<^verbatim>\<open>}\<close>; when that fails too, a \<^verbatim>\<open>response\<close> action whose
  content is \<^verbatim>\<open>PARSE_ERROR:\<close> and the text of the first failure.
\<close>

definition exp_json_str :: "string \<Rightarrow> exn + string" where
  "exp_json_str response =
     try_then (index (split_str response ''```'') 1) (\<lambda>json_str.
       Inr (if startswith json_str ''json\<newline>'' then drop 5 json_str else json_str))"

definition brace_span :: "string \<Rightarrow> string" where
  "brace_span response =
     (let start = py_find response ''{''; end = py_rfind response ''}'' + 1
      in py_slice response start end)"

definition exp_parse_llm_response :: "env \<Rightarrow> pyval \<Rightarrow> exn + pyval" where
  "exp_parse_llm_response env response =
     (case response of
        PStr s \<Rightarrow>
          (case try_then (exp_json_str s) (json_loads env) of
             Inr v \<Rightarrow> Inr v
           | Inl e \<Rightarrow>
               if is_decode_failure e then
                 (case json_loads env (brace_span s) of
                    Inr v \<Rightarrow> Inr v
                  | Inl e' \<Rightarrow> Inr (response_action (''PARSE_ERROR: '' @ exn_str e)))
               else Inl e)
      | _ \<Rightarrow> Inl (no_attribute response ''split''))"

text \<open>The agent after the \<^verbatim>\<open>extract\<close> branch has appended its message.\<close>

definition extracted :: "env \<Rightarrow> agent \<Rightarrow> string list \<Rightarrow> agent" where
  "extracted env self result =
     self\<lparr>conversation_history := conversation_history self @
       [assistant (''EXTRACTED:'' @ json_dumps env result)]\<rparr>"

text \<open>
  The \<^verbatim>\<open>if\<close>/\<^verbatim>\<open>elif\<close> chain of the loop body. In the \<^verbatim>\<open>extract\<close> branch,
  \<^verbatim>\<open>if not content\<close> holds for a missing key and for an empty payload alike.
\<close>

definition exp_dispatch :: "env \<Rightarrow> nat \<Rightarrow> agent \<Rightarrow> pyval \<Rightarrow> exn + agent step_result" where
  "exp_dispatch env i self action =
     try_then (subscript action ''action'') (\<lambda>a.
       if a = PStr ''response'' then
         try_then (subscript action ''content'') (\<lambda>c. Inr (Return c))
       else if a = PStr ''fetch'' then
         try_then (subscript action ''url'') (\<lambda>url.
           case store_content env self (fetch_website env i url) of
             (content_id, self') \<Rightarrow>
               Inr (Continue (self'\<lparr>conversation_history := conversation_history self' @
                 [assistant (''FETCHED:'' @ content_id @ ''|'' @ fmt env url)]\<rparr>)))
       else if a = PStr ''render'' then
         try_then (subscript action ''url'') (\<lambda>url.
         try_then (dict_get action ''wait_for'') (\<lambda>wait_for.
           case store_content env self (fetch_dynamic_content env i url wait_for) of
             (content_id, self') \<Rightarrow>
               Inr (Continue (self'\<lparr>conversation_history := conversation_history self' @
                 [assistant (''RENDERED:'' @ content_id @ ''|'' @ fmt env url)]\<rparr>))))
       else if a = PStr ''extract'' then
         try_then (subscript action ''content_id'') (\<lambda>content_id.
         try_then (store_get (content_store self) content_id) (\<lambda>found.
         try_then
           (case found of
              None \<Rightarrow> Inr [''CONTENT_NOT_FOUND'']
            | Some payload \<Rightarrow>
                if payload = [] then Inr [''CONTENT_NOT_FOUND'']
                else try_then (subscript action ''selector'') (\<lambda>selector.
                       Inr (extract_data env (PStr payload) selector)))
           (\<lambda>result. Inr (Continue (extracted env self result)))))
       else Inr (Return (PStr ''ERROR: Invalid action requested'')))"

definition exp_step :: "env \<Rightarrow> nat \<Rightarrow> agent \<Rightarrow> agent step_result" where
  "exp_step env i self =
     catch_agent_error
       (try_then (llm_message env i (conversation_history self)) (\<lambda>reply.
        try_then (exp_parse_llm_response env reply) (exp_dispatch env i self)))"

definition run_scraping_loop :: "env \<Rightarrow> string \<Rightarrow> agent \<Rightarrow> agent run" where
  "run_scraping_loop env user_query self =
     for_range (exp_step env) max_steps 0
       (self\<lparr>conversation_history := seed_conversation env user_query\<rparr>)"

definition run_scraping_operations :: "env \<Rightarrow> string \<Rightarrow> agent \<Rightarrow> pyval" where
  "run_scraping_operations env user_query self = answer (run_scraping_loop env user_query self)"

text \<open>\<^verbatim>\<open>_is_error\<close>: \<^verbatim>\<open>result.startswith(error_prefixes)\<close>; only a string has the method.\<close>

definition error_prefixes :: "string list" where
  "error_prefixes = [''FETCH_ERROR'', ''RENDER_ERROR'', ''EXTRACTION_ERROR'', ''AGENT_ERROR'',
     ''MAX_STEPS_REACHED'', ''PARSE_ERROR'']"

definition is_error :: "pyval \<Rightarrow> exn + bool" where
  "is_error result =
     (case result of
        PStr s \<Rightarrow> Inr (list_ex (startswith s) error_prefixes)
      | _ \<Rightarrow> Inl (no_attribute result ''startswith''))"

text \<open>\<^verbatim>\<open>_format_output\<close>: one more request; nothing in it is caught.\<close>

definition format_prompt :: "env \<Rightarrow> pyval \<Rightarrow> string \<Rightarrow> string" where
  "format_prompt env raw_data original_query =
     ''\<newline>        Original user request: '' @ original_query
     @ ''\<newline>        \<newline>        Raw scraped data:\<newline>        '' @ fmt env raw_data
     @ ''\<newline>        \<newline>''
     @ ''        Please transform this into a clean, human-readable format with:\<newline>''
     @ ''        - Clear section headings\<newline>''
     @ ''        - Bullet points or numbered lists\<newline>''
     @ ''        - Proper formatting for numbers/dates\<newline>''
     @ ''        - Source attribution\<newline>''
     @ ''        - Emoji decorations\<newline>''
     @ ''        - Concise summary\<newline>''
     @ ''        \<newline>''
     @ ''        Avoid technical jargon and maintain accuracy.\<newline>''
     @ ''        ''"

definition format_output :: "env \<Rightarrow> nat \<Rightarrow> pyval \<Rightarrow> string \<Rightarrow> exn + pyval" where
  "format_output env n raw_data original_query =
     try_then
       (session_post_json env n
          [\<lparr>role = ''system'', content = FORMATTING_SYSTEM_PROMPT env\<rparr>,
           \<lparr>role = ''user'', content = format_prompt env raw_data original_query\<rparr>])
       chat_content"

text \<open>
  \<^verbatim>\<open>execute_agent_loop\<close> of \<^verbatim>\<open>experimental.py\<close>; the request of the formatting pass
  follows those of the loop.
\<close>

definition exp_execute_agent_loop :: "env \<Rightarrow> string \<Rightarrow> agent \<Rightarrow> exn + pyval" where
  "exp_execute_agent_loop env user_query self =
     (let r = run_scraping_loop env user_query self; raw_result = answer r
      in try_then (is_error raw_result) (\<lambda>err.
           if err then Inr (PDict [(''error'', raw_result)])
           else try_then (format_output env (steps r) raw_result user_query) (\<lambda>formatted.
                  Inr (PDict [(''raw_data'', raw_result), (''formatted'', formatted)]))))"

section \<open>A scripted world for concrete runs\<close>

text \<open>
  A small world in which the functions above can be run on concrete inputs: the chat
  endpoint answers from a script, one entry per request, and refuses the connection
  when the script is used up; \<^verbatim>\<open>json.loads\<close> knows the sample texts below; one URL
  serves a page and every other request times out; keys are minted without repetition.
\<close>

definition chat_reply :: "string \<Rightarrow> exn + pyval" where
  "chat_reply text =
     Inr (PDict [(''choices'',
       PList [PDict [(''message'',
         PDict [(''role'', PStr ''assistant''), (''content'', PStr text)])]])])"

definition fetch_text :: string where
  \<open>fetch_text = ''{"action": "fetch", "url": "http://example.test"}''\<close>

definition fetch_down_text :: string where
  \<open>fetch_down_text = ''{"action": "fetch", "url": "http://down.test"}''\<close>

definition render_text :: string where
  \<open>render_text = ''{"action": "render", "url": "http://example.test", "wait_for": "h1"}''\<close>

definition extract_text :: string where
  \<open>extract_text = ''{"action": "extract", "content_id": "ref-", "selector": "h1"}''\<close>

definition response_text :: string where
  \<open>response_text = ''{"action": "response", "content": "Paris"}''\<close>

definition prefixed_response_text :: string where
  \<open>prefixed_response_text = ''{"action": "response", "content": "FETCH_ERROR means the site was down"}''\<close>

definition dance_text :: string where
  \<open>dance_text = ''{"action": "dance"}''\<close>

definition no_action_text :: string where
  \<open>no_action_text = ''{"url": "http://example.test"}''\<close>

definition extract_bare_text :: string where
  \<open>extract_bare_text = ''{"action": "extract", "content_id": "k"}''\<close>

definition quoting_text :: string where
  \<open>quoting_text = ''{"action": "response", "content": "use ```x``` here"}''\<close>

definition sample_json :: "(string \<times> pyval) list" where
  "sample_json =
     [(fetch_text, PDict [(''action'', PStr ''fetch''), (''url'', PStr ''http://example.test'')]),
      (fetch_down_text, PDict [(''action'', PStr ''fetch''), (''url'', PStr ''http://down.test'')]),
      (render_text, PDict [(''action'', PStr ''render''), (''url'', PStr ''http://example.test''),
         (''wait_for'', PStr ''h1'')]),
      (extract_text, PDict [(''action'', PStr ''extract''), (''content_id'', PStr ''ref-''),
         (''selector'', PStr ''h1'')]),
      (response_text, PDict [(''action'', PStr ''response''), (''content'', PStr ''Paris'')]),
      (prefixed_response_text, PDict [(''action'', PStr ''response''),
         (''content'', PStr ''FETCH_ERROR means the site was down'')]),
      (dance_text, PDict [(''action'', PStr ''dance'')]),
      (no_action_text, PDict [(''url'', PStr ''http://example.test'')]),
      (extract_bare_text, PDict [(''action'', PStr ''extract''), (''content_id'', PStr ''k'')]),
      (quoting_text, PDict [(''action'', PStr ''response''),
         (''content'', PStr ''use ```x``` here'')])]"

definition sample_loads :: "string \<Rightarrow> exn + pyval" where
  "sample_loads s =
     (case map_of sample_json (strip s) of
        Some v \<Rightarrow> Inr v
      | None \<Rightarrow> Inl (JSONDecodeError ''Expecting value: line 1 column 1 (char 0)''))"

definition sample_dumps :: "string list \<Rightarrow> string" where
  "sample_dumps xs = ''['' @ join '', '' (map (\<lambda>x. [CHR 0x22] @ x @ [CHR 0x22]) xs) @ '']''"

definition sample_page :: string where
  "sample_page = ''<h1> Title </h1><script>track()</script><nav><a>Home</a></nav><p>Body<template>slot</template></p>''"

definition sample_nodes :: "node list" where
  "sample_nodes =
     [Element ''h1'' [] [Text '' Title ''],
      Element ''script'' [] [Contained ''script'' ''track()''],
      Element ''nav'' [] [Element ''a'' [] [Text ''Home'']],
      Element ''p'' [] [Text ''Body'', Element ''template'' [] [Contained ''template'' ''slot'']]]"

text \<open>
  The sample parser rejects the marked section \<^verbatim>\<open><![foo]>\<close>, as \<^verbatim>\<open>html.parser\<close>
  does, and takes any other text it does not know for one text node.
\<close>

definition sample_parser :: "pyval \<Rightarrow> exn + node list" where
  "sample_parser markup =
     (case markup of
        PStr s \<Rightarrow>
          if s = sample_page then Inr sample_nodes
          else if s = ''<![foo]>'' then
            Inl (OtherException (''unknown status keyword '' @ quoted ''foo'' @ '' in marked section''))
          else Inr [Text s]
      | _ \<Rightarrow> Inl (TypeError ''Incoming markup is of an invalid type''))"

definition sample_select :: "node \<Rightarrow> pyval \<Rightarrow> exn + node list" where
  "sample_select soup selector =
     (case (soup, selector) of
        (Element n as cs, PStr t) \<Rightarrow> Inr (filter (is_tag t) cs)
      | _ \<Rightarrow> Inl (OtherException ''Invalid selector''))"

definition sample_get :: "pyval \<Rightarrow> exn + string" where
  "sample_get url =
     (if url = PStr ''http://example.test'' then Inr sample_page
      else if url = PStr ''http://broken.test'' then Inr ''<![foo]>''
      else Inl (OtherException ''Read timed out. (read timeout=15)''))"

definition scripted :: "(exn + pyval) list \<Rightarrow> env" where
  "scripted script =
     \<lparr>session_post_json =
        (\<lambda>n messages. if n < length script then script ! n
                       else Inl (OtherException ''Connection refused'')),
      json_loads = sample_loads,
      json_dumps = sample_dumps,
      py_str = type_name,
      http_get = (\<lambda>n. sample_get),
      browser_content = (\<lambda>n url sel. sample_get url),
      html_parser = sample_parser,
      css_select = sample_select,
      uuid4 = (\<lambda>n. ''ref-'' @ replicate n (CHR ''x'')),
      GROQ_SYSTEM_PROMPT = ''You are a senior web scraping agent'',
      FORMATTING_SYSTEM_PROMPT = ''You are an expert data formatter''\<rparr>"

definition fenced :: "string \<Rightarrow> string" where
  "fenced body = ''```json\<newline>'' @ body @ ''\<newline>```''"

definition plain_fenced :: "string \<Rightarrow> string" where
  "plain_fenced body = ''```\<newline>'' @ body @ ''\<newline>```''"

definition new_agent :: agent where
  "new_agent = \<lparr>conversation_history = [], content_store = Map.empty, uuid_calls = 0\<rparr>"

text \<open>
  A model that asks for the same page in every step; one that asks in every step for
  an extraction from a key nobody issued, and names no selector; one that asks for a
  page and then answers.
\<close>

definition always_fetch :: env where
  "always_fetch = scripted (replicate 5 (chat_reply (fenced fetch_text)))"

definition always_extract :: env where
  "always_extract = scripted (replicate 5 (chat_reply (fenced extract_bare_text)))"

definition fetch_then_answer :: env where
  "fetch_then_answer = scripted [chat_reply (fenced fetch_text), chat_reply (fenced response_text)]"


section \<open>Properties\<close>

subsection \<open>The loop \<^verbatim>\<open>for _ in range(max_steps)\<close>\<close>

lemma for_range_steps_le: "steps (for_range body n i st) \<le> i + n"
proof (induction n arbitrary: i st)
  case 0
  show ?case by simp
next
  case (Suc n)
  show ?case
  proof (cases "body i st")
    case (Return v)
    then show ?thesis by simp
  next
    case (Continue st')
    with Suc.IH [of "Suc i" st'] show ?thesis by simp
  qed
qed

lemma for_range_exhausted:
  "(\<And>j s v. j < i + n \<Longrightarrow> body j s \<noteq> Return v) \<Longrightarrow>
   returned (for_range body n i st) = None \<and> steps (for_range body n i st) = i + n"
proof (induction n arbitrary: i st)
  case 0
  show ?case by simp
next
  case (Suc n)
  have "body i st \<noteq> Return v" for v
    using Suc.prems [of i st v] by simp
  then obtain st' where c: "body i st = Continue st'"
    by (cases "body i st") auto
  have "returned (for_range body n (Suc i) st') = None \<and>
        steps (for_range body n (Suc i) st') = Suc i + n"
    by (rule Suc.IH) (use Suc.prems in simp)
  with c show ?case by simp
qed

text \<open>
  A run either uses up the range, or stops in the pass that returned: the value it
  hands back is the one that pass returned in the state the run records.
\<close>

lemma for_range_outcome:
  "(returned (for_range body n i st) = None \<and> steps (for_range body n i st) = i + n) \<or>
   (\<exists>v. returned (for_range body n i st) = Some v \<and> i < steps (for_range body n i st) \<and>
        body (steps (for_range body n i st) - 1) (final (for_range body n i st)) = Return v)"
proof (induction n arbitrary: i st)
  case 0
  show ?case by simp
next
  case (Suc n)
  show ?case
  proof (cases "body i st")
    case (Return v)
    then show ?thesis by simp
  next
    case (Continue st')
    from Suc.IH [of "Suc i" st'] Continue show ?thesis
      by auto
  qed
qed

lemma main_loop_outcome:
  "(main_execute_agent_loop env q = PStr ''MAX_STEPS_REACHED: Processing limit exceeded'' \<and>
      steps (main_loop env q) = 5) \<or>
   (0 < steps (main_loop env q) \<and>
    main_step env (steps (main_loop env q) - 1) (final (main_loop env q)) =
      Return (main_execute_agent_loop env q))"
  using for_range_outcome [of "main_step env" max_steps 0 "seed_conversation env q"]
  by (auto simp: main_loop_def main_execute_agent_loop_def max_steps_def answer_def)

lemma run_scraping_loop_outcome:
  "(run_scraping_operations env q self = PStr ''MAX_STEPS_REACHED: Processing limit exceeded'' \<and>
      steps (run_scraping_loop env q self) = 5) \<or>
   (0 < steps (run_scraping_loop env q self) \<and>
    exp_step env (steps (run_scraping_loop env q self) - 1) (final (run_scraping_loop env q self)) =
      Return (run_scraping_operations env q self))"
  using for_range_outcome [of "exp_step env" max_steps 0
      "self\<lparr>conversation_history := seed_conversation env q\<rparr>"]
  by (auto simp: run_scraping_loop_def run_scraping_operations_def max_steps_def answer_def)

lemma fetch_reply_main:
  "main_parse_llm_response (scripted S) (PStr (fenced fetch_text)) =
     Inr (PDict [(''action'', PStr ''fetch''), (''url'', PStr ''http://example.test'')])"
  by code_simp

lemma fetch_reply_exp:
  "exp_parse_llm_response (scripted S) (PStr (fenced fetch_text)) =
     Inr (PDict [(''action'', PStr ''fetch''), (''url'', PStr ''http://example.test'')])"
  by code_simp

lemma always_fetch_main_step:
  assumes "j < 5"
  shows "\<exists>h'. main_step always_fetch j h = Continue h'"
proof -
  have p: "main_parse_llm_response always_fetch (PStr (fenced fetch_text)) =
     Inr (PDict [(''action'', PStr ''fetch''), (''url'', PStr ''http://example.test'')])"
    unfolding always_fetch_def by (rule fetch_reply_main)
  have s: "session_post_json always_fetch j h = chat_reply (fenced fetch_text)"
    using assms by (simp add: always_fetch_def scripted_def)
  show ?thesis
    by (simp add: main_step_def llm_message_def s chat_reply_def chat_content_def p
        main_dispatch_def catch_agent_error_def)
qed

lemma always_fetch_exp_step:
  assumes "j < 5"
  shows "\<exists>s'. exp_step always_fetch j s = Continue s'"
proof -
  have p: "exp_parse_llm_response always_fetch (PStr (fenced fetch_text)) =
     Inr (PDict [(''action'', PStr ''fetch''), (''url'', PStr ''http://example.test'')])"
    unfolding always_fetch_def by (rule fetch_reply_exp)
  have s: "session_post_json always_fetch j (conversation_history s) = chat_reply (fenced fetch_text)"
    using assms by (simp add: always_fetch_def scripted_def)
  show ?thesis
    by (simp add: exp_step_def llm_message_def s chat_reply_def chat_content_def p
        exp_dispatch_def catch_agent_error_def store_content_def Let_def)
qed

subsection \<open>The content cleaner\<close>

lemma all_strings_located:
  "all_strings None n = filter (\<lambda>x. x \<noteq> []) (map (\<lambda>(anc, s). strip s) (located_texts n))"
proof (induction n)
  case (Element n as cs)
  have "concat (map (all_strings None) cs) =
        concat (map (\<lambda>c. filter (\<lambda>x. x \<noteq> []) (map (\<lambda>(anc, s). strip s) (located_texts c))) cs)"
    using Element.IH by (induction cs) auto
  then show ?case
    by (simp add: filter_concat map_concat comp_def case_prod_unfold)
qed auto

lemma all_strings_document:
  "concat (map (all_strings None) nodes) =
     filter (\<lambda>x. x \<noteq> []) (map (\<lambda>(anc, s). strip s) (document_texts nodes))"
proof -
  have "concat (map (all_strings None) nodes) =
        concat (map (\<lambda>c. filter (\<lambda>x. x \<noteq> []) (map (\<lambda>(anc, s). strip s) (located_texts c))) nodes)"
    by (rule arg_cong [where f = concat], rule map_cong) (simp_all add: all_strings_located)
  then show ?thesis
    by (simp add: document_texts_def filter_concat map_concat comp_def)
qed

lemma located_decompose:
  "filter (\<lambda>(anc, s). t \<notin> set anc) (located_texts c) =
     (if is_tag t c then [] else located_texts (decompose_all t c))"
proof (induction c)
  case (Element m as cs)
  have ih: "concat (map (\<lambda>c. filter (\<lambda>(anc, s). t \<notin> set anc) (located_texts c)) cs) =
        concat (map (\<lambda>c. located_texts (decompose_all t c)) (filter (\<lambda>c. \<not> is_tag t c) cs))"
    using Element.IH by (induction cs) auto
  show ?case
  proof (cases "m = t")
    case True
    then show ?thesis
      by (auto simp: filter_empty_conv)
  next
    case False
    have "filter (\<lambda>(anc, s). t \<notin> set anc) (located_texts (Element m as cs)) =
          map (\<lambda>(anc, s). (m # anc, s))
            (filter (\<lambda>(anc, s). t \<notin> set anc) (concat (map located_texts cs)))"
      using False by (simp add: filter_map comp_def case_prod_unfold)
    also have "filter (\<lambda>(anc, s). t \<notin> set anc) (concat (map located_texts cs)) =
          concat (map (\<lambda>c. filter (\<lambda>(anc, s). t \<notin> set anc) (located_texts c)) cs)"
      by (simp add: filter_concat comp_def)
    finally show ?thesis
      using False ih by (simp add: comp_def)
  qed
qed auto

lemma document_decompose:
  "document_texts (map (decompose_all t) (filter (\<lambda>c. \<not> is_tag t c) nodes)) =
     filter (\<lambda>(anc, s). t \<notin> set anc) (document_texts nodes)"
proof -
  have "concat (map (\<lambda>c. filter (\<lambda>(anc, s). t \<notin> set anc) (located_texts c)) nodes) =
        concat (map (\<lambda>c. located_texts (decompose_all t c)) (filter (\<lambda>c. \<not> is_tag t c) nodes))"
    by (induction nodes) (auto simp: located_decompose)
  then show ?thesis
    by (simp add: document_texts_def filter_concat comp_def)
qed

lemma root_decompose_foldl:
  "\<exists>nodes'. foldl (\<lambda>s tag. decompose_all tag s) (Element r as nodes) tags = Element r as nodes' \<and>
     document_texts nodes' = filter (\<lambda>(anc, s). set anc \<inter> set tags = {}) (document_texts nodes)"
proof (induction tags arbitrary: nodes)
  case Nil
  show ?case by simp
next
  case (Cons t tags)
  from Cons.IH [of "map (decompose_all t) (filter (\<lambda>c. \<not> is_tag t c) nodes)"]
  show ?case
    by (auto simp: document_decompose case_prod_unfold)
qed

lemma clean_html_of_nodes:
  assumes "html_parser env (PStr html) = Inr nodes"
  shows "clean_html env html =
    Inr (take 6000 (join ''\<newline>'' (map (\<lambda>(anc, s). strip s) (visible_texts nodes))))"
proof -
  obtain nodes' where f: "foldl (\<lambda>s tag. decompose_all tag s) (Element ''[document]'' [] nodes)
        unwanted_tags = Element ''[document]'' [] nodes'"
    and d: "document_texts nodes' =
        filter (\<lambda>(anc, s). set anc \<inter> set unwanted_tags = {}) (document_texts nodes)"
    using root_decompose_foldl by blast
  have "concat (map (all_strings None) nodes') = map (\<lambda>(anc, s). strip s) (visible_texts nodes)"
    by (simp add: all_strings_document d visible_texts_def filter_map comp_def
        case_prod_unfold conj_commute)
  with assms f show ?thesis
    by (simp add: clean_html_def beautiful_soup_def get_text_def max_html_length_def
        string_containers_def)
qed

lemma clean_html_raises:
  "html_parser env (PStr html) = Inl e \<Longrightarrow> clean_html env html = Inl e"
  by (simp add: clean_html_def beautiful_soup_def)

text \<open>
  C6, as the code has it. When the parser hands back the nodes of a document, however
  malformed the input, the cleaner returns a string of at most 6000 characters: the
  first 6000 of the non-blank text nodes that lie in no unwanted element, stripped and
  joined by newlines; no text node inside a \<^verbatim>\<open>script\<close> or \<^verbatim>\<open>style\<close> element is among
  them. When the parser raises, the cleaner raises the same exception;
  \<^verbatim>\<open>fetch_website\<close> and \<^verbatim>\<open>fetch_dynamic_content\<close> catch it and return a
  \<^verbatim>\<open>FETCH_ERROR:\<close> or \<^verbatim>\<open>RENDER_ERROR:\<close> string. The cleaner is a function of its input
  and of the parser and changes no state.
\<close>

theorem clean_html_bounded:
  "(html_parser env (PStr html) = Inr nodes \<longrightarrow>
      (\<exists>out. clean_html env html = Inr out \<and> length out \<le> 6000 \<and>
         out = take 6000 (join ''\<newline>'' (map (\<lambda>(anc, s). strip s) (visible_texts nodes))) \<and>
         (\<forall>(anc, s) \<in> set (visible_texts nodes). ''script'' \<notin> set anc \<and> ''style'' \<notin> set anc))) \<and>
   (html_parser env (PStr html) = Inl e \<longrightarrow>
      clean_html env html = Inl e \<and>
      (http_get env n url = Inr html \<longrightarrow>
         fetch_website env n url = ''FETCH_ERROR: '' @ exn_str e) \<and>
      (browser_content env n url (if truthy wait_for then Some wait_for else None) = Inr html \<longrightarrow>
         fetch_dynamic_content env n url wait_for = ''RENDER_ERROR: '' @ exn_str e))"
proof (intro conjI impI)
  assume p: "html_parser env (PStr html) = Inr nodes"
  have "\<forall>(anc, s) \<in> set (visible_texts nodes). ''script'' \<notin> set anc \<and> ''style'' \<notin> set anc"
    by (auto simp: visible_texts_def unwanted_tags_def)
  then show "\<exists>out. clean_html env html = Inr out \<and> length out \<le> 6000 \<and>
         out = take 6000 (join ''\<newline>'' (map (\<lambda>(anc, s). strip s) (visible_texts nodes))) \<and>
         (\<forall>(anc, s) \<in> set (visible_texts nodes). ''script'' \<notin> set anc \<and> ''style'' \<notin> set anc)"
    by (simp add: clean_html_of_nodes [OF p])
next
  assume "html_parser env (PStr html) = Inl e"
  then show "clean_html env html = Inl e"
    by (rule clean_html_raises)
next
  assume "html_parser env (PStr html) = Inl e" and "http_get env n url = Inr html"
  then show "fetch_website env n url = ''FETCH_ERROR: '' @ exn_str e"
    by (simp add: fetch_website_def clean_html_raises)
next
  assume "html_parser env (PStr html) = Inl e"
    and "browser_content env n url (if truthy wait_for then Some wait_for else None) = Inr html"
  then show "fetch_dynamic_content env n url wait_for = ''RENDER_ERROR: '' @ exn_str e"
    by (simp add: fetch_dynamic_content_def clean_html_raises)
qed

text \<open>
  The claim as stated fails: on the marked section \<^verbatim>\<open><![foo]>\<close> the parser raises, and
  so does the cleaner.
\<close>

theorem clean_html_counterexample:
  "clean_html (scripted []) ''<![foo]>'' =
     Inl (OtherException (''unknown status keyword '' @ quoted ''foo'' @ '' in marked section''))"
  by (simp add: clean_html_def beautiful_soup_def scripted_def sample_parser_def sample_page_def)

theorem clean_html_bounded_witness:
  "html_parser (scripted []) (PStr sample_page) = Inr sample_nodes \<and>
   clean_html (scripted []) sample_page = Inr ''Title\<newline>Body'' \<and>
   visible_texts sample_nodes = [([''h1''], '' Title ''), ([''p''], ''Body'')] \<and>
   html_parser (scripted []) (PStr ''<![foo]>'') =
     Inl (OtherException (''unknown status keyword '' @ quoted ''foo'' @ '' in marked section'')) \<and>
   fetch_website (scripted []) 0 (PStr ''http://broken.test'') =
     ''FETCH_ERROR: '' @ ''unknown status keyword '' @ quoted ''foo'' @ '' in marked section''"
proof -
  have p: "html_parser (scripted []) (PStr sample_page) = Inr sample_nodes"
    by (simp add: scripted_def sample_parser_def)
  have v: "visible_texts sample_nodes = [([''h1''], '' Title ''), ([''p''], ''Body'')]"
    by code_simp
  have s: "strip '' Title '' = ''Title''" "strip ''Body'' = ''Body''"
    by code_simp+
  have q: "html_parser (scripted []) (PStr ''<![foo]>'') =
     Inl (OtherException (''unknown status keyword '' @ quoted ''foo'' @ '' in marked section''))"
    by (simp add: scripted_def sample_parser_def sample_page_def)
  have g: "http_get (scripted []) 0 (PStr ''http://broken.test'') = Inr ''<![foo]>''"
    by (simp add: scripted_def sample_get_def)
  note a = clean_html_bounded [where env = "scripted []" and html = sample_page
      and nodes = sample_nodes]
  note b = clean_html_bounded [where env = "scripted []" and html = "''<![foo]>''"
      and e = "OtherException (''unknown status keyword '' @ quoted ''foo'' @ '' in marked section'')"
      and n = 0 and url = "PStr ''http://broken.test''"]
  have c: "clean_html (scripted []) sample_page = Inr ''Title\<newline>Body''"
    using a [THEN conjunct1, THEN mp, OF p] v s by simp
  have f: "fetch_website (scripted []) 0 (PStr ''http://broken.test'') =
     ''FETCH_ERROR: '' @ ''unknown status keyword '' @ quoted ''foo'' @ '' in marked section''"
    using b [THEN conjunct2, THEN mp, OF q, THEN conjunct2, THEN conjunct1, THEN mp, OF g]
    by simp
  show ?thesis
    by (intro conjI, rule p, rule c, rule v, rule q, rule f)
qed

subsection \<open>The decoders\<close>

lemma startswith_take: "startswith s p \<longleftrightarrow> take (length p) s = p"
  by (induction s p rule: startswith.induct) auto

lemma startswith_append: "startswith (p @ s) p"
  by (simp add: startswith_take)

lemma startswith_longer:
  "length p \<le> length x \<Longrightarrow> startswith (x @ s) p \<longleftrightarrow> startswith x p"
  by (simp add: startswith_take)

lemma find_str_here: "startswith s sub \<Longrightarrow> find_str sub s = Some 0"
  by (cases s) (auto simp: startswith_take)

lemma find_str_append:
  "find_str sep (pre @ sep) = Some (length pre) \<Longrightarrow> find_str sep (pre @ sep @ s) = Some (length pre)"
proof (induction pre)
  case Nil
  show ?case by (simp add: find_str_here startswith_append)
next
  case (Cons c pre)
  have len: "length sep \<le> length ((c # pre) @ sep)" by simp
  from Cons.prems have no: "\<not> startswith ((c # pre) @ sep) sep"
    by (auto split: if_splits)
  with Cons.prems have "find_str sep (pre @ sep) = Some (length pre)"
    by (auto split: if_splits)
  then have ih: "find_str sep (pre @ sep @ s) = Some (length pre)"
    by (rule Cons.IH)
  from no have "\<not> startswith (((c # pre) @ sep) @ s) sep"
    using startswith_longer [OF len] by blast
  with ih show ?case by simp
qed

lemma split_str_first:
  assumes "sep \<noteq> []" and "find_str sep (pre @ sep) = Some (length pre)"
  shows "split_str (pre @ sep @ s) sep = pre # split_str s sep"
  using assms find_str_append [OF assms(2), of s]
  by (subst split_str.simps) simp

lemma split_str_length: "0 < length (split_str s sep)"
  by (subst split_str.simps) (simp split: option.splits)

lemma index_Cons0: "index (x # xs) 0 = Inr x"
  by (simp add: index_def)

lemma index_Cons1: "index (x # y # ys) (Suc 0) = Inr y"
  by (simp add: index_def)

lemma split_str_hd:
  assumes "sep \<noteq> []" and "find_str sep (pre @ sep) = Some (length pre)"
  shows "index (split_str (pre @ sep @ s) sep) 0 = Inr pre"
  by (simp add: split_str_first [OF assms] index_Cons0)

lemma exp_json_str_fenced:
  assumes "find_str ''```'' (body @ ''```'') = Some (length body)"
  shows "exp_json_str (''```json\<newline>'' @ body @ ''```'' @ rest) = Inr body"
proof -
  have a: "find_str ''```'' (''json\<newline>'' @ body @ ''```'') = Some (length (''json\<newline>'' @ body))"
    using assms by simp
  have "split_str (''```'' @ (''json\<newline>'' @ body) @ ''```'' @ rest) ''```'' =
        [] # split_str ((''json\<newline>'' @ body) @ ''```'' @ rest) ''```''"
    using split_str_first [of "''```''" "[]"] by simp
  also have "split_str ((''json\<newline>'' @ body) @ ''```'' @ rest) ''```'' =
        (''json\<newline>'' @ body) # split_str rest ''```''"
    using a split_str_first [of "''```''" "''json\<newline>'' @ body" rest] by simp
  finally show ?thesis
    by (simp add: exp_json_str_def index_Cons1)
qed


lemma strip_leading_newline: "strip (CHR 0x0A # s) = strip s"
  by (simp add: strip_def is_space_def)

lemma startswith_length: "startswith s p \<Longrightarrow> length p \<le> length s"
  by (induction s p rule: startswith.induct) auto

lemma find_str_short: "length s < length p \<Longrightarrow> find_str p s = None"
proof (induction s)
  case Nil
  then show ?case by auto
next
  case (Cons c cs)
  from Cons.prems have "\<not> startswith (c # cs) p"
    using startswith_length [of "c # cs" p] by auto
  moreover from Cons.prems have "find_str p cs = None"
    by (intro Cons.IH) simp
  ultimately show ?case by simp
qed

lemma startswith_prefix_of: "startswith s (a @ b) \<Longrightarrow> startswith s a"
  by (induction s a rule: startswith.induct) auto

lemma no_longer_separator:
  assumes "find_str a (body @ a) = Some (length body)" and "b \<noteq> []"
  shows "find_str (a @ b) (body @ a) = None"
  using assms(1)
proof (induction body)
  case Nil
  from assms(2) show ?case
    by (simp add: find_str_short)
next
  case (Cons c cs)
  from Cons.prems have no: "\<not> startswith ((c # cs) @ a) a"
    by (auto split: if_splits)
  with Cons.prems have "find_str a (cs @ a) = Some (length cs)"
    by (auto split: if_splits)
  then have ih: "find_str (a @ b) (cs @ a) = None"
    by (rule Cons.IH)
  from no have "\<not> startswith ((c # cs) @ a) (a @ b)"
    using startswith_prefix_of by blast
  with ih show ?case by simp
qed

lemma no_tagged_fence:
  assumes "find_str ''```'' (body @ ''```'') = Some (length body)"
  shows "find_str ''```json'' (body @ ''```'') = None"
  using no_longer_separator [OF assms, of "''json''"] by simp

lemma main_json_str_fenced:
  assumes "find_str ''```'' (body @ ''```'') = Some (length body)"
  shows "main_json_str (''```json\<newline>'' @ body @ ''```'') = Inr (strip body)"
proof -
  have nl: "find_str ''```'' ((CHR 0x0A # body) @ ''```'') = Some (length (CHR 0x0A # body))"
    using assms by simp
  have "split_str (''```json'' @ (CHR 0x0A # body) @ ''```'') ''```json'' =
        [] # split_str ((CHR 0x0A # body) @ ''```'') ''```json''"
    using split_str_first [of "''```json''" "[]" "(CHR 0x0A # body) @ ''```''"] by simp
  also have "split_str ((CHR 0x0A # body) @ ''```'') ''```json'' = [(CHR 0x0A # body) @ ''```'']"
    using no_tagged_fence [OF nl] by (subst split_str.simps) simp
  finally have one: "index (split_str (''```json\<newline>'' @ body @ ''```'') ''```json'') 1 =
      Inr ((CHR 0x0A # body) @ ''```'')"
    by (simp add: index_Cons1)
  have two: "index (split_str ((CHR 0x0A # body) @ ''```'') ''```'') 0 = Inr (CHR 0x0A # body)"
    using split_str_hd [of "''```''" "CHR 0x0A # body" "[]"] nl by simp
  show ?thesis
    unfolding main_json_str_def one try_then.simps two
    by (simp add: strip_leading_newline)
qed

lemma exp_json_str_untagged:
  assumes "find_str ''```'' (body @ ''```'') = Some (length body)"
    and "\<not> startswith body ''json\<newline>''"
  shows "exp_json_str (''```'' @ body @ ''```'' @ rest) = Inr body"
proof -
  have "split_str (''```'' @ body @ ''```'' @ rest) ''```'' =
        [] # split_str (body @ ''```'' @ rest) ''```''"
    using split_str_first [of "''```''" "[]"] by simp
  also have "split_str (body @ ''```'' @ rest) ''```'' = body # split_str rest ''```''"
    using assms(1) split_str_first [of "''```''" body rest] by simp
  finally show ?thesis
    using assms(2) by (simp add: exp_json_str_def index_Cons1)
qed

lemma main_json_str_untagged:
  assumes "find_str ''```json'' s = None"
  shows "main_json_str s = Inl (IndexError ''list index out of range'')"
proof -
  have "split_str s ''```json'' = [s]"
    using assms by (subst split_str.simps) simp
  then show ?thesis
    by (simp add: main_json_str_def index_def)
qed

text \<open>
  C5, as the code has it. Both decoders return exactly the value \<^verbatim>\<open>json.loads\<close> makes
  of the fenced text (\<^verbatim>\<open>main.py\<close>: of that text stripped) when the reply is one block
  tagged \<^verbatim>\<open>json\<close> whose text holds no fence of its own, so the action and all its
  fields are those of the JSON text. \<^verbatim>\<open>experimental.py\<close> does the same for a block
  without the tag, and for any reply whose fenced text is rejected while the span
  from its first \<^verbatim>\<open>{\<close> to its last \<^verbatim>\<open>}\<close> parses. \<^verbatim>\<open>main.py\<close> splits on the tagged
  fence only and cuts at the first fence after it: a reply without a tagged fence,
  and a reply whose text up to the first inner fence is rejected, come back whole
  as the content of a \<^verbatim>\<open>response\<close> action.
\<close>

theorem decode_fenced_block:
  "(find_str ''```'' (body @ ''```'') = Some (length body) \<and> json_loads env body = Inr v \<longrightarrow>
      exp_parse_llm_response env (PStr (''```json\<newline>'' @ body @ ''```'')) = Inr v) \<and>
   (find_str ''```'' (body @ ''```'') = Some (length body) \<and> json_loads env (strip body) = Inr v \<longrightarrow>
      main_parse_llm_response env (PStr (''```json\<newline>'' @ body @ ''```'')) = Inr v) \<and>
   (find_str ''```'' (body @ ''```'') = Some (length body) \<and> \<not> startswith body ''json\<newline>'' \<and>
    json_loads env body = Inr v \<longrightarrow>
      exp_parse_llm_response env (PStr (''```'' @ body @ ''```'')) = Inr v) \<and>
   (try_then (exp_json_str s) (json_loads env) = Inl e \<and> is_decode_failure e \<and>
    json_loads env (brace_span s) = Inr v \<longrightarrow>
      exp_parse_llm_response env (PStr s) = Inr v) \<and>
   (find_str ''```json'' s = None \<longrightarrow>
      main_parse_llm_response env (PStr s) =
        Inr (PDict [(''action'', PStr ''response''), (''content'', PStr s)])) \<and>
   (main_json_str s = Inr x \<and> json_loads env x = Inl e \<and> is_decode_failure e \<longrightarrow>
      main_parse_llm_response env (PStr s) =
        Inr (PDict [(''action'', PStr ''response''), (''content'', PStr s)]))"
proof (intro conjI impI)
  assume h: "find_str ''```'' (body @ ''```'') = Some (length body) \<and> json_loads env body = Inr v"
  then have "exp_json_str (''```json\<newline>'' @ body @ ''```'') = Inr body"
    using exp_json_str_fenced [of body "[]"] by simp
  with h show "exp_parse_llm_response env (PStr (''```json\<newline>'' @ body @ ''```'')) = Inr v"
    unfolding exp_parse_llm_response_def by simp
next
  assume h: "find_str ''```'' (body @ ''```'') = Some (length body) \<and>
    json_loads env (strip body) = Inr v"
  then have "main_json_str (''```json\<newline>'' @ body @ ''```'') = Inr (strip body)"
    by (intro main_json_str_fenced) simp
  with h show "main_parse_llm_response env (PStr (''```json\<newline>'' @ body @ ''```'')) = Inr v"
    unfolding main_parse_llm_response_def by simp
next
  assume h: "find_str ''```'' (body @ ''```'') = Some (length body) \<and>
    \<not> startswith body ''json\<newline>'' \<and> json_loads env body = Inr v"
  then have "exp_json_str (''```'' @ body @ ''```'') = Inr body"
    using exp_json_str_untagged [of body "[]"] by simp
  with h show "exp_parse_llm_response env (PStr (''```'' @ body @ ''```'')) = Inr v"
    unfolding exp_parse_llm_response_def by simp
next
  assume "try_then (exp_json_str s) (json_loads env) = Inl e \<and> is_decode_failure e \<and>
    json_loads env (brace_span s) = Inr v"
  then show "exp_parse_llm_response env (PStr s) = Inr v"
    by (simp add: exp_parse_llm_response_def)
next
  assume "find_str ''```json'' s = None"
  then have "main_json_str s = Inl (IndexError ''list index out of range'')"
    by (rule main_json_str_untagged)
  then show "main_parse_llm_response env (PStr s) =
        Inr (PDict [(''action'', PStr ''response''), (''content'', PStr s)])"
    by (simp add: main_parse_llm_response_def response_action_def)
next
  assume "main_json_str s = Inr x \<and> json_loads env x = Inl e \<and> is_decode_failure e"
  then show "main_parse_llm_response env (PStr s) =
        Inr (PDict [(''action'', PStr ''response''), (''content'', PStr s)])"
    by (simp add: main_parse_llm_response_def response_action_def)
qed

text \<open>
  The fenced block as the specification states it, for every block, fails in
  \<^verbatim>\<open>main.py\<close>: the block without the \<^verbatim>\<open>json\<close> tag, and the tagged block whose JSON
  string quotes a fence, are both returned whole as a \<^verbatim>\<open>response\<close> action instead of
  the action they hold.
\<close>

theorem decode_fenced_block_counterexample:
  "main_parse_llm_response (scripted []) (PStr (plain_fenced response_text)) =
     Inr (PDict [(''action'', PStr ''response''), (''content'', PStr (plain_fenced response_text))]) \<and>
   main_parse_llm_response (scripted []) (PStr (fenced quoting_text)) =
     Inr (PDict [(''action'', PStr ''response''), (''content'', PStr (fenced quoting_text))])"
  by code_simp

lemma fenced_shape: "fenced t = ''```json\<newline>'' @ (t @ ''\<newline>'') @ ''```''"
  by (simp add: fenced_def)

lemma plain_fenced_shape: "plain_fenced t = ''```'' @ (''\<newline>'' @ t @ ''\<newline>'') @ ''```''"
  by (simp add: plain_fenced_def)

lemma tagged_sample:
  assumes "find_str ''```'' ((t @ ''\<newline>'') @ ''```'') = Some (length (t @ ''\<newline>''))"
    and "json_loads (scripted []) (t @ ''\<newline>'') = Inr v"
    and "json_loads (scripted []) (strip (t @ ''\<newline>'')) = Inr v"
    and rule: "\<And>body env v s e x.
      (find_str ''```'' (body @ ''```'') = Some (length body) \<and> json_loads env body = Inr v \<longrightarrow>
        exp_parse_llm_response env (PStr (''```json\<newline>'' @ body @ ''```'')) = Inr v) \<and>
      (find_str ''```'' (body @ ''```'') = Some (length body) \<and>
       json_loads env (strip body) = Inr v \<longrightarrow>
        main_parse_llm_response env (PStr (''```json\<newline>'' @ body @ ''```'')) = Inr v)"
  shows "exp_parse_llm_response (scripted []) (PStr (fenced t)) = Inr v \<and>
         main_parse_llm_response (scripted []) (PStr (fenced t)) = Inr v"
  unfolding fenced_shape
  using rule [of "t @ ''\<newline>''" "scripted []" v] assms(1,2,3) by blast

text \<open>
  The four action shapes in a tagged block, in both files; the untagged block and
  the block quoting a fence, decoded by \<^verbatim>\<open>experimental.py\<close> and returned whole by
  \<^verbatim>\<open>main.py\<close>.
\<close>

theorem decode_fenced_block_witness:
  \<open>(exp_parse_llm_response (scripted []) (PStr (fenced fetch_text)) =
     Inr (PDict [(''action'', PStr ''fetch''), (''url'', PStr ''http://example.test'')]) \<and>
   main_parse_llm_response (scripted []) (PStr (fenced fetch_text)) =
     Inr (PDict [(''action'', PStr ''fetch''), (''url'', PStr ''http://example.test'')])) \<and>
   (exp_parse_llm_response (scripted []) (PStr (fenced render_text)) =
     Inr (PDict [(''action'', PStr ''render''), (''url'', PStr ''http://example.test''),
       (''wait_for'', PStr ''h1'')]) \<and>
   main_parse_llm_response (scripted []) (PStr (fenced render_text)) =
     Inr (PDict [(''action'', PStr ''render''), (''url'', PStr ''http://example.test''),
       (''wait_for'', PStr ''h1'')])) \<and>
   (exp_parse_llm_response (scripted []) (PStr (fenced extract_text)) =
     Inr (PDict [(''action'', PStr ''extract''), (''content_id'', PStr ''ref-''),
       (''selector'', PStr ''h1'')]) \<and>
   main_parse_llm_response (scripted []) (PStr (fenced extract_text)) =
     Inr (PDict [(''action'', PStr ''extract''), (''content_id'', PStr ''ref-''),
       (''selector'', PStr ''h1'')])) \<and>
   (exp_parse_llm_response (scripted []) (PStr (fenced response_text)) =
     Inr (PDict [(''action'', PStr ''response''), (''content'', PStr ''Paris'')]) \<and>
   main_parse_llm_response (scripted []) (PStr (fenced response_text)) =
     Inr (PDict [(''action'', PStr ''response''), (''content'', PStr ''Paris'')])) \<and>
   exp_parse_llm_response (scripted []) (PStr (plain_fenced response_text)) =
     Inr (PDict [(''action'', PStr ''response''), (''content'', PStr ''Paris'')]) \<and>
   exp_parse_llm_response (scripted []) (PStr (fenced quoting_text)) =
     Inr (PDict [(''action'', PStr ''response''), (''content'', PStr ''use ```x``` here'')]) \<and>
   main_parse_llm_response (scripted []) (PStr (plain_fenced response_text)) =
     Inr (PDict [(''action'', PStr ''response''), (''content'', PStr (plain_fenced response_text))]) \<and>
   main_json_str (fenced quoting_text) = Inr ''{"action": "response", "content": "use'' \<and>
   main_parse_llm_response (scripted []) (PStr (fenced quoting_text)) =
     Inr (PDict [(''action'', PStr ''response''), (''content'', PStr (fenced quoting_text))])\<close>
proof -
  have f1: "find_str ''```'' ((fetch_text @ ''\<newline>'') @ ''```'') = Some (length (fetch_text @ ''\<newline>''))"
    by code_simp
  have f2: "find_str ''```'' ((render_text @ ''\<newline>'') @ ''```'') = Some (length (render_text @ ''\<newline>''))"
    by code_simp
  have f3: "find_str ''```'' ((extract_text @ ''\<newline>'') @ ''```'') = Some (length (extract_text @ ''\<newline>''))"
    by code_simp
  have f4: "find_str ''```'' ((response_text @ ''\<newline>'') @ ''```'') = Some (length (response_text @ ''\<newline>''))"
    by code_simp
  have j1: "json_loads (scripted []) (fetch_text @ ''\<newline>'') =
      Inr (PDict [(''action'', PStr ''fetch''), (''url'', PStr ''http://example.test'')])"
    "json_loads (scripted []) (strip (fetch_text @ ''\<newline>'')) =
      Inr (PDict [(''action'', PStr ''fetch''), (''url'', PStr ''http://example.test'')])"
    by code_simp+
  have j2: "json_loads (scripted []) (render_text @ ''\<newline>'') =
      Inr (PDict [(''action'', PStr ''render''), (''url'', PStr ''http://example.test''),
       (''wait_for'', PStr ''h1'')])"
    "json_loads (scripted []) (strip (render_text @ ''\<newline>'')) =
      Inr (PDict [(''action'', PStr ''render''), (''url'', PStr ''http://example.test''),
       (''wait_for'', PStr ''h1'')])"
    by code_simp+
  have j3: "json_loads (scripted []) (extract_text @ ''\<newline>'') =
      Inr (PDict [(''action'', PStr ''extract''), (''content_id'', PStr ''ref-''),
       (''selector'', PStr ''h1'')])"
    "json_loads (scripted []) (strip (extract_text @ ''\<newline>'')) =
      Inr (PDict [(''action'', PStr ''extract''), (''content_id'', PStr ''ref-''),
       (''selector'', PStr ''h1'')])"
    by code_simp+
  have j4: "json_loads (scripted []) (response_text @ ''\<newline>'') =
      Inr (PDict [(''action'', PStr ''response''), (''content'', PStr ''Paris'')])"
    "json_loads (scripted []) (strip (response_text @ ''\<newline>'')) =
      Inr (PDict [(''action'', PStr ''response''), (''content'', PStr ''Paris'')])"
    by code_simp+
  have two: "\<And>body env v s e x.
      (find_str ''```'' (body @ ''```'') = Some (length body) \<and> json_loads env body = Inr v \<longrightarrow>
        exp_parse_llm_response env (PStr (''```json\<newline>'' @ body @ ''```'')) = Inr v) \<and>
      (find_str ''```'' (body @ ''```'') = Some (length body) \<and>
       json_loads env (strip body) = Inr v \<longrightarrow>
        main_parse_llm_response env (PStr (''```json\<newline>'' @ body @ ''```'')) = Inr v)"
    using decode_fenced_block by blast
  note w1 = tagged_sample [OF f1 j1 two]
  note w2 = tagged_sample [OF f2 j2 two]
  note w3 = tagged_sample [OF f3 j3 two]
  note w4 = tagged_sample [OF f4 j4 two]
  have u: "find_str ''```'' ((''\<newline>'' @ response_text @ ''\<newline>'') @ ''```'') =
      Some (length (''\<newline>'' @ response_text @ ''\<newline>'')) \<and>
      \<not> startswith (''\<newline>'' @ response_text @ ''\<newline>'') ''json\<newline>'' \<and>
      json_loads (scripted []) (''\<newline>'' @ response_text @ ''\<newline>'') =
        Inr (PDict [(''action'', PStr ''response''), (''content'', PStr ''Paris'')])"
    by code_simp
  have w5: "exp_parse_llm_response (scripted []) (PStr (plain_fenced response_text)) =
     Inr (PDict [(''action'', PStr ''response''), (''content'', PStr ''Paris'')])"
    unfolding plain_fenced_shape
    by (rule decode_fenced_block [THEN conjunct2, THEN conjunct2, THEN conjunct1, THEN mp, OF u])
  have q: "try_then (exp_json_str (fenced quoting_text)) (json_loads (scripted [])) =
      Inl (JSONDecodeError ''Expecting value: line 1 column 1 (char 0)'') \<and>
      is_decode_failure (JSONDecodeError ''Expecting value: line 1 column 1 (char 0)'') \<and>
      json_loads (scripted []) (brace_span (fenced quoting_text)) =
        Inr (PDict [(''action'', PStr ''response''), (''content'', PStr ''use ```x``` here'')])"
    by code_simp
  have w6: "exp_parse_llm_response (scripted []) (PStr (fenced quoting_text)) =
     Inr (PDict [(''action'', PStr ''response''), (''content'', PStr ''use ```x``` here'')])"
    by (rule decode_fenced_block [THEN conjunct2, THEN conjunct2, THEN conjunct2, THEN conjunct1,
          THEN mp, OF q])
  have n: "find_str ''```json'' (plain_fenced response_text) = None"
    by code_simp
  have w7: "main_parse_llm_response (scripted []) (PStr (plain_fenced response_text)) =
     Inr (PDict [(''action'', PStr ''response''), (''content'', PStr (plain_fenced response_text))])"
    by (rule decode_fenced_block [THEN conjunct2, THEN conjunct2, THEN conjunct2, THEN conjunct2,
          THEN conjunct1, THEN mp, OF n])
  have c: \<open>main_json_str (fenced quoting_text) = Inr ''{"action": "response", "content": "use''\<close>
    by code_simp
  have c': \<open>main_json_str (fenced quoting_text) = Inr ''{"action": "response", "content": "use'' \<and>
      json_loads (scripted []) ''{"action": "response", "content": "use'' =
        Inl (JSONDecodeError ''Expecting value: line 1 column 1 (char 0)'') \<and>
      is_decode_failure (JSONDecodeError ''Expecting value: line 1 column 1 (char 0)'')\<close>
    by code_simp
  have w8: "main_parse_llm_response (scripted []) (PStr (fenced quoting_text)) =
     Inr (PDict [(''action'', PStr ''response''), (''content'', PStr (fenced quoting_text))])"
    by (rule decode_fenced_block [THEN conjunct2, THEN conjunct2, THEN conjunct2, THEN conjunct2,
          THEN conjunct2, THEN mp, OF c'])
  show ?thesis
    by (intro conjI, rule w1 [THEN conjunct1], rule w1 [THEN conjunct2],
        rule w2 [THEN conjunct1], rule w2 [THEN conjunct2],
        rule w3 [THEN conjunct1], rule w3 [THEN conjunct2],
        rule w4 [THEN conjunct1], rule w4 [THEN conjunct2],
        rule w5, rule w6, rule w7, rule c, rule w8)
qed

subsection \<open>Replies that do not decode\<close>

lemma exp_parse_undecodable:
  assumes "try_then (exp_json_str s) (json_loads env) = Inl e" and "is_decode_failure e"
    and "json_loads env (brace_span s) = Inl e'"
  shows "exp_parse_llm_response env (PStr s) =
           Inr (PDict [(''action'', PStr ''response''),
                       (''content'', PStr (''PARSE_ERROR: '' @ exn_str e))])"
  using assms by (simp add: exp_parse_llm_response_def response_action_def)

lemma main_parse_undecodable:
  assumes "try_then (main_json_str s) (json_loads env) = Inl e" and "is_decode_failure e"
  shows "main_parse_llm_response env (PStr s) =
           Inr (PDict [(''action'', PStr ''response''), (''content'', PStr s)])"
  using assms by (simp add: main_parse_llm_response_def response_action_def)

lemma exp_dispatch_response:
  "exp_dispatch env i self (PDict [(''action'', PStr ''response''), (''content'', c)]) =
     Inr (Return c)"
  by (simp add: exp_dispatch_def)

lemma main_dispatch_response:
  "main_dispatch env i h (PDict [(''action'', PStr ''response''), (''content'', c)]) =
     Inr (Return c)"
  by (simp add: main_dispatch_def)

lemma exp_dispatch_no_action:
  "map_of kvs ''action'' = None \<Longrightarrow>
   exp_dispatch env i self (PDict kvs) = Inl (KeyError (quoted ''action''))"
  by (simp add: exp_dispatch_def)

lemma main_dispatch_no_action:
  "map_of kvs ''action'' = None \<Longrightarrow>
   main_dispatch env i h (PDict kvs) = Inl (KeyError (quoted ''action''))"
  by (simp add: main_dispatch_def)

lemma exp_dispatch_unrecognized:
  "map_of kvs ''action'' = Some a \<Longrightarrow> a \<noteq> PStr ''response'' \<Longrightarrow> a \<noteq> PStr ''fetch'' \<Longrightarrow>
   a \<noteq> PStr ''render'' \<Longrightarrow> a \<noteq> PStr ''extract'' \<Longrightarrow>
   exp_dispatch env i self (PDict kvs) = Inr (Return (PStr ''ERROR: Invalid action requested''))"
  by (simp add: exp_dispatch_def)

lemma main_dispatch_unrecognized:
  "map_of kvs ''action'' = Some a \<Longrightarrow> a \<noteq> PStr ''response'' \<Longrightarrow> a \<noteq> PStr ''fetch'' \<Longrightarrow>
   a \<noteq> PStr ''render'' \<Longrightarrow> a \<noteq> PStr ''extract'' \<Longrightarrow>
   main_dispatch env i h (PDict kvs) = Inr (Return (PStr ''ERROR: Invalid action requested''))"
  by (simp add: main_dispatch_def)

lemma exp_step_decoded:
  "llm_message env i (conversation_history self) = Inr reply \<Longrightarrow>
   exp_parse_llm_response env reply = Inr action \<Longrightarrow>
   exp_step env i self = catch_agent_error (exp_dispatch env i self action)"
  by (simp add: exp_step_def)

lemma main_step_decoded:
  "llm_message env i h = Inr reply \<Longrightarrow>
   main_parse_llm_response env reply = Inr action \<Longrightarrow>
   main_step env i h = catch_agent_error (main_dispatch env i h action)"
  by (simp add: main_step_def)

text \<open>
  C2, as the code has it. The decoders have no invalid action of their own. When the
  fenced text is missing or does not parse, and (in \<^verbatim>\<open>experimental.py\<close>) the span
  between the braces does not parse either, the decoder returns a \<^verbatim>\<open>response\<close> action
  and raises nothing: its content is \<^verbatim>\<open>PARSE_ERROR:\<close> with the text of the first
  failure in \<^verbatim>\<open>experimental.py\<close>, and the reply itself in \<^verbatim>\<open>main.py\<close>. A parsed
  object comes back as it is; the loop then returns \<^verbatim>\<open>AGENT_ERROR: 'action'\<close> when the
  field is absent and \<^verbatim>\<open>ERROR: Invalid action requested\<close> when it is none of the four.
\<close>

theorem undecodable_reply_is_response:
  "(try_then (exp_json_str s) (json_loads env) = Inl e \<and> is_decode_failure e \<and>
      json_loads env (brace_span s) = Inl e' \<longrightarrow>
    exp_parse_llm_response env (PStr s) =
      Inr (PDict [(''action'', PStr ''response''),
                  (''content'', PStr (''PARSE_ERROR: '' @ exn_str e))])) \<and>
   (try_then (main_json_str s) (json_loads env) = Inl e \<and> is_decode_failure e \<longrightarrow>
    main_parse_llm_response env (PStr s) =
      Inr (PDict [(''action'', PStr ''response''), (''content'', PStr s)])) \<and>
   (llm_message env i (conversation_history self) = Inr reply \<and>
      exp_parse_llm_response env reply = Inr (PDict kvs) \<and> map_of kvs ''action'' = None \<longrightarrow>
    exp_step env i self = Return (PStr (''AGENT_ERROR: '' @ quoted ''action''))) \<and>
   (llm_message env i h = Inr reply \<and>
      main_parse_llm_response env reply = Inr (PDict kvs) \<and> map_of kvs ''action'' = None \<longrightarrow>
    main_step env i h = Return (PStr (''AGENT_ERROR: '' @ quoted ''action''))) \<and>
   (llm_message env i (conversation_history self) = Inr reply \<and>
      exp_parse_llm_response env reply = Inr (PDict kvs) \<and> map_of kvs ''action'' = Some a \<and>
      a \<notin> {PStr ''response'', PStr ''fetch'', PStr ''render'', PStr ''extract''} \<longrightarrow>
    exp_step env i self = Return (PStr ''ERROR: Invalid action requested'')) \<and>
   (llm_message env i h = Inr reply \<and>
      main_parse_llm_response env reply = Inr (PDict kvs) \<and> map_of kvs ''action'' = Some a \<and>
      a \<notin> {PStr ''response'', PStr ''fetch'', PStr ''render'', PStr ''extract''} \<longrightarrow>
    main_step env i h = Return (PStr ''ERROR: Invalid action requested''))"
proof (intro conjI impI)
  assume "try_then (exp_json_str s) (json_loads env) = Inl e \<and> is_decode_failure e \<and>
      json_loads env (brace_span s) = Inl e'"
  then show "exp_parse_llm_response env (PStr s) =
      Inr (PDict [(''action'', PStr ''response''),
                  (''content'', PStr (''PARSE_ERROR: '' @ exn_str e))])"
    using exp_parse_undecodable by blast
next
  assume "try_then (main_json_str s) (json_loads env) = Inl e \<and> is_decode_failure e"
  then show "main_parse_llm_response env (PStr s) =
      Inr (PDict [(''action'', PStr ''response''), (''content'', PStr s)])"
    using main_parse_undecodable by blast
next
  assume "llm_message env i (conversation_history self) = Inr reply \<and>
      exp_parse_llm_response env reply = Inr (PDict kvs) \<and> map_of kvs ''action'' = None"
  then show "exp_step env i self = Return (PStr (''AGENT_ERROR: '' @ quoted ''action''))"
    by (simp add: exp_step_decoded exp_dispatch_no_action catch_agent_error_def)
next
  assume "llm_message env i h = Inr reply \<and>
      main_parse_llm_response env reply = Inr (PDict kvs) \<and> map_of kvs ''action'' = None"
  then show "main_step env i h = Return (PStr (''AGENT_ERROR: '' @ quoted ''action''))"
    by (simp add: main_step_decoded main_dispatch_no_action catch_agent_error_def)
next
  assume "llm_message env i (conversation_history self) = Inr reply \<and>
      exp_parse_llm_response env reply = Inr (PDict kvs) \<and> map_of kvs ''action'' = Some a \<and>
      a \<notin> {PStr ''response'', PStr ''fetch'', PStr ''render'', PStr ''extract''}"
  then show "exp_step env i self = Return (PStr ''ERROR: Invalid action requested'')"
    by (simp add: exp_step_decoded exp_dispatch_unrecognized catch_agent_error_def)
next
  assume "llm_message env i h = Inr reply \<and>
      main_parse_llm_response env reply = Inr (PDict kvs) \<and> map_of kvs ''action'' = Some a \<and>
      a \<notin> {PStr ''response'', PStr ''fetch'', PStr ''render'', PStr ''extract''}"
  then show "main_step env i h = Return (PStr ''ERROR: Invalid action requested'')"
    by (simp add: main_step_decoded main_dispatch_unrecognized catch_agent_error_def)
qed

lemma scripted_first_reply:
  "llm_message (scripted (chat_reply t # script)) 0 h = Inr (PStr t)"
  by (simp add: llm_message_def scripted_def chat_reply_def chat_content_def)

lemma scripted_unchanged [simp]:
  "json_loads (scripted S) = sample_loads"
  "json_dumps (scripted S) = sample_dumps"
  "html_parser (scripted S) = sample_parser"
  "css_select (scripted S) = sample_select"
  "http_get (scripted S) = (\<lambda>n. sample_get)"
  "uuid4 (scripted S) = (\<lambda>n. ''ref-'' @ replicate n (CHR ''x''))"
  by (simp_all add: scripted_def)

lemma garbage_decoded:
  "exp_parse_llm_response (scripted S) (PStr ''no json here'') =
     Inr (PDict [(''action'', PStr ''response''),
                 (''content'', PStr ''PARSE_ERROR: list index out of range'')])"
  "main_parse_llm_response (scripted S) (PStr ''no json here'') =
     Inr (PDict [(''action'', PStr ''response''), (''content'', PStr ''no json here'')])"
  by code_simp+

lemma no_action_decoded:
  "exp_parse_llm_response (scripted S) (PStr (fenced no_action_text)) =
     Inr (PDict [(''url'', PStr ''http://example.test'')])"
  "main_parse_llm_response (scripted S) (PStr (fenced no_action_text)) =
     Inr (PDict [(''url'', PStr ''http://example.test'')])"
  by code_simp+

text \<open>
  The claim as stated fails: a reply without JSON decodes to a \<^verbatim>\<open>response\<close> action, which
  the loop returns as its result, and an object without \<^verbatim>\<open>action\<close> ends the loop with an
  agent error, not with the invalid-action error.
\<close>

theorem undecodable_reply_counterexample:
  "exp_parse_llm_response (scripted []) (PStr ''no json here'') =
     Inr (PDict [(''action'', PStr ''response''),
                 (''content'', PStr ''PARSE_ERROR: list index out of range'')]) \<and>
   main_parse_llm_response (scripted []) (PStr ''no json here'') =
     Inr (PDict [(''action'', PStr ''response''), (''content'', PStr ''no json here'')]) \<and>
   exp_step (scripted [chat_reply ''no json here'']) 0 new_agent =
     Return (PStr ''PARSE_ERROR: list index out of range'') \<and>
   main_step (scripted [chat_reply ''no json here'']) 0 [] = Return (PStr ''no json here'') \<and>
   exp_step (scripted [chat_reply (fenced no_action_text)]) 0 new_agent =
     Return (PStr (''AGENT_ERROR: '' @ quoted ''action'')) \<and>
   main_step (scripted [chat_reply (fenced no_action_text)]) 0 [] =
     Return (PStr (''AGENT_ERROR: '' @ quoted ''action''))"
  by (simp add: garbage_decoded no_action_decoded exp_step_def main_step_def
      scripted_first_reply exp_dispatch_def main_dispatch_def catch_agent_error_def)


lemma dance_decoded:
  "exp_parse_llm_response (scripted S) (PStr (fenced dance_text)) =
     Inr (PDict [(''action'', PStr ''dance'')])"
  "main_parse_llm_response (scripted S) (PStr (fenced dance_text)) =
     Inr (PDict [(''action'', PStr ''dance'')])"
  by code_simp+

lemma garbage_attempts:
  "try_then (exp_json_str ''no json here'') (json_loads (scripted S)) =
     Inl (IndexError ''list index out of range'')"
  "json_loads (scripted S) (brace_span ''no json here'') =
     Inl (JSONDecodeError ''Expecting value: line 1 column 1 (char 0)'')"
  "try_then (main_json_str ''no json here'') (json_loads (scripted S)) =
     Inl (IndexError ''list index out of range'')"
  by code_simp+

theorem undecodable_reply_is_response_witness:
  "exp_parse_llm_response (scripted [chat_reply (fenced no_action_text)]) (PStr ''no json here'') =
     Inr (PDict [(''action'', PStr ''response''),
                 (''content'', PStr (''PARSE_ERROR: '' @ ''list index out of range''))]) \<and>
   main_parse_llm_response (scripted [chat_reply (fenced no_action_text)]) (PStr ''no json here'') =
     Inr (PDict [(''action'', PStr ''response''), (''content'', PStr ''no json here'')]) \<and>
   exp_step (scripted [chat_reply (fenced no_action_text)]) 0 new_agent =
     Return (PStr (''AGENT_ERROR: '' @ quoted ''action'')) \<and>
   main_step (scripted [chat_reply (fenced no_action_text)]) 0 [] =
     Return (PStr (''AGENT_ERROR: '' @ quoted ''action'')) \<and>
   exp_step (scripted [chat_reply (fenced dance_text)]) 0 new_agent =
     Return (PStr ''ERROR: Invalid action requested'') \<and>
   main_step (scripted [chat_reply (fenced dance_text)]) 0 [] =
     Return (PStr ''ERROR: Invalid action requested'')"
proof -
  have n: "map_of [(''url'', PStr ''http://example.test'')] ''action'' = None"
    by simp
  have d: "map_of [(''action'', PStr ''dance'')] ''action'' = Some (PStr ''dance'')"
    "PStr ''dance'' \<notin> {PStr ''response'', PStr ''fetch'', PStr ''render'', PStr ''extract''}"
    by simp_all
  have g: "is_decode_failure (IndexError ''list index out of range'')"
    by simp
  note a = undecodable_reply_is_response [of "''no json here''"
      "scripted [chat_reply (fenced no_action_text)]" "IndexError ''list index out of range''"
      "JSONDecodeError ''Expecting value: line 1 column 1 (char 0)''" 0 new_agent
      "PStr (fenced no_action_text)" "[(''url'', PStr ''http://example.test'')]" "[]" "PStr ''dance''"]
  note b = undecodable_reply_is_response [of "''no json here''"
      "scripted [chat_reply (fenced dance_text)]" "IndexError ''list index out of range''"
      "JSONDecodeError ''Expecting value: line 1 column 1 (char 0)''" 0 new_agent
      "PStr (fenced dance_text)" "[(''action'', PStr ''dance'')]" "[]" "PStr ''dance''"]
  from a b n d g show ?thesis
    using garbage_attempts no_action_decoded dance_decoded scripted_first_reply
    by (simp add: new_agent_def)
qed

lemma for_range_returns_in:
  "returned (for_range body k i st) = None \<Longrightarrow> k < m \<Longrightarrow>
   body (i + k) (final (for_range body k i st)) = Return v \<Longrightarrow>
   returned (for_range body m i st) = Some v \<and> steps (for_range body m i st) = Suc (i + k)"
proof (induction k arbitrary: i st m)
  case 0
  then obtain m' where "m = Suc m'"
    by (cases m) auto
  with 0 show ?case by simp
next
  case (Suc k)
  from Suc.prems(2) obtain m' where m: "m = Suc m'" and k: "k < m'"
    by (cases m) auto
  show ?case
  proof (cases "body i st")
    case (Return w)
    with Suc.prems(1) show ?thesis by simp
  next
    case (Continue st')
    with Suc.prems have a: "returned (for_range body k (Suc i) st') = None"
      and b: "body (Suc i + k) (final (for_range body k (Suc i) st')) = Return v"
      by simp_all
    from Suc.IH [OF a k b] show ?thesis
      by (simp add: m Continue)
  qed
qed

lemma is_error_parse_error: "is_error (PStr (''PARSE_ERROR: '' @ d)) = Inr True"
  by (simp add: is_error_def error_prefixes_def)

text \<open>
  C3, as the code has it. Let the first \<open>k < 5\<close> passes fall through and the reply of
  the next pass be text that does not decode. Then the loop ends in that pass, after
  \<open>k + 1\<close> passes. \<^verbatim>\<open>experimental.py\<close> returns \<^verbatim>\<open>PARSE_ERROR:\<close> with the text of the
  failure, and its \<^verbatim>\<open>execute_agent_loop\<close> reports it under \<^verbatim>\<open>error\<close>; \<^verbatim>\<open>main.py\<close>
  returns the reply itself.
\<close>

theorem garbage_reply_ends_loop:
  assumes "k < 5"
  shows
  "(returned (for_range (exp_step env) k 0
        (self\<lparr>conversation_history := seed_conversation env q\<rparr>)) = None \<and>
    llm_message env k (conversation_history (final (for_range (exp_step env) k 0
        (self\<lparr>conversation_history := seed_conversation env q\<rparr>)))) = Inr (PStr s) \<and>
    try_then (exp_json_str s) (json_loads env) = Inl e \<and> is_decode_failure e \<and>
    json_loads env (brace_span s) = Inl e' \<longrightarrow>
      steps (run_scraping_loop env q self) = Suc k \<and>
      run_scraping_operations env q self = PStr (''PARSE_ERROR: '' @ exn_str e) \<and>
      exp_execute_agent_loop env q self =
        Inr (PDict [(''error'', PStr (''PARSE_ERROR: '' @ exn_str e))])) \<and>
   (returned (for_range (main_step env) k 0 (seed_conversation env q)) = None \<and>
    llm_message env k (final (for_range (main_step env) k 0 (seed_conversation env q))) =
      Inr (PStr s) \<and>
    try_then (main_json_str s) (json_loads env) = Inl e \<and> is_decode_failure e \<longrightarrow>
      steps (main_loop env q) = Suc k \<and> main_execute_agent_loop env q = PStr s)"
proof (intro conjI impI)
  let ?st = "self\<lparr>conversation_history := seed_conversation env q\<rparr>"
  assume h: "returned (for_range (exp_step env) k 0 ?st) = None \<and>
    llm_message env k (conversation_history (final (for_range (exp_step env) k 0 ?st))) =
      Inr (PStr s) \<and>
    try_then (exp_json_str s) (json_loads env) = Inl e \<and> is_decode_failure e \<and>
    json_loads env (brace_span s) = Inl e'"
  then have p: "exp_parse_llm_response env (PStr s) =
      Inr (PDict [(''action'', PStr ''response''),
                  (''content'', PStr (''PARSE_ERROR: '' @ exn_str e))])"
    using exp_parse_undecodable by blast
  from h have "exp_step env k (final (for_range (exp_step env) k 0 ?st)) =
      Return (PStr (''PARSE_ERROR: '' @ exn_str e))"
    by (simp add: exp_step_decoded [OF _ p] exp_dispatch_response catch_agent_error_def)
  with h assms have r: "returned (for_range (exp_step env) 5 0 ?st) =
      Some (PStr (''PARSE_ERROR: '' @ exn_str e)) \<and>
      steps (for_range (exp_step env) 5 0 ?st) = Suc (0 + k)"
    by (intro for_range_returns_in) simp_all
  then show "steps (run_scraping_loop env q self) = Suc k"
    by (simp add: run_scraping_loop_def max_steps_def)
  from r show a: "run_scraping_operations env q self = PStr (''PARSE_ERROR: '' @ exn_str e)"
    by (simp add: run_scraping_operations_def run_scraping_loop_def max_steps_def answer_def)
  then show "exp_execute_agent_loop env q self =
      Inr (PDict [(''error'', PStr (''PARSE_ERROR: '' @ exn_str e))])"
    unfolding exp_execute_agent_loop_def Let_def
    unfolding run_scraping_operations_def [symmetric] a is_error_parse_error
    by simp
next
  let ?st = "seed_conversation env q"
  assume h: "returned (for_range (main_step env) k 0 ?st) = None \<and>
    llm_message env k (final (for_range (main_step env) k 0 ?st)) = Inr (PStr s) \<and>
    try_then (main_json_str s) (json_loads env) = Inl e \<and> is_decode_failure e"
  then have p: "main_parse_llm_response env (PStr s) =
      Inr (PDict [(''action'', PStr ''response''), (''content'', PStr s)])"
    using main_parse_undecodable by blast
  from h have "main_step env k (final (for_range (main_step env) k 0 ?st)) = Return (PStr s)"
    by (simp add: main_step_decoded [OF _ p] main_dispatch_response catch_agent_error_def)
  with h assms have r: "returned (for_range (main_step env) 5 0 ?st) = Some (PStr s) \<and>
      steps (for_range (main_step env) 5 0 ?st) = Suc (0 + k)"
    by (intro for_range_returns_in) simp_all
  then show "steps (main_loop env q) = Suc k"
    by (simp add: main_loop_def max_steps_def)
  from r show "main_execute_agent_loop env q = PStr s"
    by (simp add: main_execute_agent_loop_def main_loop_def max_steps_def answer_def)
qed

text \<open>In \<^verbatim>\<open>main.py\<close> the undecodable reply is the answer of the loop.\<close>

theorem garbage_reply_counterexample:
  "main_execute_agent_loop (scripted [chat_reply ''no json here'']) ''q'' = PStr ''no json here'' \<and>
   steps (main_loop (scripted [chat_reply ''no json here'']) ''q'') = 1"
  by code_simp

theorem garbage_reply_ends_loop_witness:
  "steps (run_scraping_loop (scripted [chat_reply ''no json here'']) ''q'' new_agent) = Suc 0 \<and>
   run_scraping_operations (scripted [chat_reply ''no json here'']) ''q'' new_agent =
     PStr ''PARSE_ERROR: list index out of range'' \<and>
   exp_execute_agent_loop (scripted [chat_reply ''no json here'']) ''q'' new_agent =
     Inr (PDict [(''error'', PStr ''PARSE_ERROR: list index out of range'')]) \<and>
   steps (main_loop (scripted [chat_reply ''no json here'']) ''q'') = Suc 0 \<and>
   main_execute_agent_loop (scripted [chat_reply ''no json here'']) ''q'' = PStr ''no json here''"
proof -
  have k: "(0::nat) < 5" by simp
  have g: "is_decode_failure (IndexError ''list index out of range'')" by simp
  from garbage_reply_ends_loop [OF k, where env = "scripted [chat_reply ''no json here'']"
      and self = new_agent and q = "''q''" and s = "''no json here''"
      and e = "IndexError ''list index out of range''"
      and e' = "JSONDecodeError ''Expecting value: line 1 column 1 (char 0)''"]
  show ?thesis
    using garbage_attempts scripted_first_reply g by simp
qed

subsection \<open>The content store\<close>

lemma exp_dispatch_extract:
  assumes "map_of kvs ''action'' = Some (PStr ''extract'')"
    and "map_of kvs ''content_id'' = Some (PStr k)"
  shows "exp_dispatch env i self (PDict kvs) =
     try_then
       (case content_store self k of
          None \<Rightarrow> Inr [''CONTENT_NOT_FOUND'']
        | Some payload \<Rightarrow>
            if payload = [] then Inr [''CONTENT_NOT_FOUND'']
            else try_then (subscript (PDict kvs) ''selector'') (\<lambda>selector.
                   Inr (extract_data env (PStr payload) selector)))
       (\<lambda>result. Inr (Continue (extracted env self result)))"
  using assms by (simp add: exp_dispatch_def)

lemma extract_step_not_found:
  assumes "llm_message env i (conversation_history self) = Inr reply"
    and "exp_parse_llm_response env reply = Inr (PDict kvs)"
    and "map_of kvs ''action'' = Some (PStr ''extract'')"
    and "map_of kvs ''content_id'' = Some (PStr k)"
    and "content_store self k = None \<or> content_store self k = Some []"
  shows "exp_step env i self = Continue (extracted env self [''CONTENT_NOT_FOUND''])"
  using assms(5)
  by (auto simp: exp_step_decoded [OF assms(1,2)] exp_dispatch_extract [OF assms(3,4)]
      catch_agent_error_def)


lemma store_content_key:
  "store_content env self payload = (key, self') \<Longrightarrow>
   key = uuid4 env (uuid_calls self) \<and>
   content_store self' = (content_store self)(key \<mapsto> payload) \<and>
   uuid_calls self' = Suc (uuid_calls self) \<and>
   conversation_history self' = conversation_history self"
  by (auto simp: store_content_def Let_def)

lemma fresh_key:
  assumes "inj (uuid4 env)" and "dom (content_store self) \<subseteq> issued env self"
  shows "uuid4 env (uuid_calls self) \<notin> dom (content_store self)"
proof
  assume "uuid4 env (uuid_calls self) \<in> dom (content_store self)"
  with assms(2) obtain j where "j < uuid_calls self" and "uuid4 env (uuid_calls self) = uuid4 env j"
    by (auto simp: issued_def)
  with assms(1) show False
    by (auto dest: injD)
qed

lemma store_content_invariant:
  assumes "dom (content_store self) \<subseteq> issued env self"
    and "store_content env self payload = (key, self')"
  shows "dom (content_store self') \<subseteq> issued env self'"
  using assms store_content_key [OF assms(2)]
  by (auto simp: issued_def lessThan_Suc)

lemma issued_history [simp]:
  "issued env (self\<lparr>conversation_history := h\<rparr>) = issued env self"
  by (simp add: issued_def)

lemma try_then_Inr_iff: "try_then m f = Inr y \<longleftrightarrow> (\<exists>x. m = Inr x \<and> f x = Inr y)"
  by (cases m) auto

lemma invariant_history:
  "dom (content_store s) \<subseteq> issued env s \<Longrightarrow>
   dom (content_store (s\<lparr>conversation_history := h\<rparr>)) \<subseteq>
     issued env (s\<lparr>conversation_history := h\<rparr>)"
  by simp

lemma exp_dispatch_keeps_invariant:
  assumes "dom (content_store self) \<subseteq> issued env self"
    and "exp_dispatch env i self action = Inr (Continue self')"
  shows "dom (content_store self') \<subseteq> issued env self'"
proof -
  note put = store_content_invariant [OF assms(1)]
  obtain a where a: "subscript action ''action'' = Inr a"
    using assms(2) by (cases "subscript action ''action''") (auto simp: exp_dispatch_def)
  consider "a = PStr ''fetch''" | "a = PStr ''render''" | "a = PStr ''extract''"
    using assms(2) a
    by (cases "subscript action ''content''") (auto simp: exp_dispatch_def split: if_splits)
  then show ?thesis
  proof cases
    case 1
    from assms(2) a 1 obtain url where url: "subscript action ''url'' = Inr url"
      by (cases "subscript action ''url''") (auto simp: exp_dispatch_def)
    obtain k s' where sc: "store_content env self (fetch_website env i url) = (k, s')"
      by (cases "store_content env self (fetch_website env i url)") auto
    from assms(2) a 1 url sc obtain h where "self' = s'\<lparr>conversation_history := h\<rparr>"
      by (auto simp: exp_dispatch_def)
    with put [OF sc] show ?thesis
      by (simp add: invariant_history)
  next
    case 2
    from assms(2) a 2 obtain url where url: "subscript action ''url'' = Inr url"
      by (cases "subscript action ''url''") (auto simp: exp_dispatch_def)
    from assms(2) a 2 url obtain w where w: "dict_get action ''wait_for'' = Inr w"
      by (cases "dict_get action ''wait_for''") (auto simp: exp_dispatch_def)
    obtain k s' where sc: "store_content env self (fetch_dynamic_content env i url w) = (k, s')"
      by (cases "store_content env self (fetch_dynamic_content env i url w)") auto
    from assms(2) a 2 url w sc obtain h where "self' = s'\<lparr>conversation_history := h\<rparr>"
      by (auto simp: exp_dispatch_def)
    with put [OF sc] show ?thesis
      by (simp add: invariant_history)
  next
    case 3
    from assms(2) a 3 obtain h where "self' = self\<lparr>conversation_history := h\<rparr>"
      by (auto simp: exp_dispatch_def extracted_def try_then_Inr_iff
          split: option.splits if_splits)
    with assms(1) show ?thesis
      by (simp add: invariant_history)
  qed
qed

lemma exp_step_keeps_invariant:
  assumes "dom (content_store self) \<subseteq> issued env self"
    and "exp_step env i self = Continue self'"
  shows "dom (content_store self') \<subseteq> issued env self'"
proof -
  from assms(2) obtain action where "exp_dispatch env i self action = Inr (Continue self')"
  proof (cases "llm_message env i (conversation_history self)")
    case (Inl e)
    with assms(2) show ?thesis
      by (simp add: exp_step_def catch_agent_error_def)
  next
    case (Inr reply)
    note reply = this
    show ?thesis
    proof (cases "exp_parse_llm_response env reply")
      case (Inl e)
      with assms(2) reply show ?thesis
        by (simp add: exp_step_def catch_agent_error_def)
    next
      case (Inr action)
      with assms(2) reply that [of action] show ?thesis
        by (cases "exp_dispatch env i self action")
          (auto simp: exp_step_def catch_agent_error_def)
    qed
  qed
  with assms(1) show ?thesis
    by (rule exp_dispatch_keeps_invariant)
qed

lemma for_range_keeps_invariant:
  assumes "\<And>i st st'. P st \<Longrightarrow> body i st = Continue st' \<Longrightarrow> P st'" and "P st"
  shows "P (final (for_range body n i st))"
  using assms(2)
proof (induction n arbitrary: i st)
  case 0
  then show ?case by simp
next
  case (Suc n)
  show ?case
  proof (cases "body i st")
    case (Return v)
    with Suc.prems show ?thesis by simp
  next
    case (Continue st')
    with Suc.prems assms(1) have "P st'" by blast
    from Suc.IH [OF this] Continue show ?thesis by simp
  qed
qed

lemma run_keeps_invariant:
  assumes "dom (content_store self) \<subseteq> issued env self"
  shows "dom (content_store (final (run_scraping_loop env q self))) \<subseteq>
         issued env (final (run_scraping_loop env q self))"
  unfolding run_scraping_loop_def
  by (rule for_range_keeps_invariant [where P = "\<lambda>s. dom (content_store s) \<subseteq> issued env s"])
    (use assms exp_step_keeps_invariant in auto)

lemma extract_decoded:
  "exp_parse_llm_response (scripted S) (PStr (fenced extract_text)) =
     Inr (PDict [(''action'', PStr ''extract''), (''content_id'', PStr ''ref-''),
       (''selector'', PStr ''h1'')])"
  by code_simp




text \<open>
  C10. When the store maps the key of an \<^verbatim>\<open>extract\<close> action to the empty string, the
  pass does not run the extractor: it appends the message of a missing reference,
  \<^verbatim>\<open>EXTRACTED:\<close> with \<^verbatim>\<open>["CONTENT_NOT_FOUND"]\<close>, the same message the pass appends in the
  agent whose store lacks the key.
\<close>

theorem empty_payload_is_not_found:
  assumes "llm_message env i (conversation_history self) = Inr reply"
    and "exp_parse_llm_response env reply = Inr (PDict kvs)"
    and "map_of kvs ''action'' = Some (PStr ''extract'')"
    and "map_of kvs ''content_id'' = Some (PStr key)"
    and "content_store self key = Some []"
  shows "exp_step env i self = Continue (extracted env self [''CONTENT_NOT_FOUND'']) \<and>
         exp_step env i (self\<lparr>content_store := (content_store self)(key := None)\<rparr>) =
           Continue (extracted env (self\<lparr>content_store := (content_store self)(key := None)\<rparr>)
             [''CONTENT_NOT_FOUND''])"
proof
  show "exp_step env i self = Continue (extracted env self [''CONTENT_NOT_FOUND''])"
    using assms by (intro extract_step_not_found) auto
  show "exp_step env i (self\<lparr>content_store := (content_store self)(key := None)\<rparr>) =
      Continue (extracted env (self\<lparr>content_store := (content_store self)(key := None)\<rparr>)
        [''CONTENT_NOT_FOUND''])"
    using assms by (intro extract_step_not_found) auto
qed

theorem empty_payload_is_not_found_witness:
  "content_store (snd (store_content (scripted [chat_reply (fenced extract_text)]) new_agent []))
     ''ref-'' = Some [] \<and>
   exp_step (scripted [chat_reply (fenced extract_text)]) 0
     (snd (store_content (scripted [chat_reply (fenced extract_text)]) new_agent [])) =
     Continue (extracted (scripted [chat_reply (fenced extract_text)])
       (snd (store_content (scripted [chat_reply (fenced extract_text)]) new_agent []))
       [''CONTENT_NOT_FOUND''])"
proof -
  let ?W = "scripted [chat_reply (fenced extract_text)]"
  let ?A = "snd (store_content ?W new_agent [])"
  have c: "content_store ?A ''ref-'' = Some []"
    by (simp add: store_content_def Let_def new_agent_def)
  have l: "llm_message ?W 0 (conversation_history ?A) = Inr (PStr (fenced extract_text))"
    by (rule scripted_first_reply)
  have m: "map_of [(''action'', PStr ''extract''), (''content_id'', PStr ''ref-''),
       (''selector'', PStr ''h1'')] ''action'' = Some (PStr ''extract'')"
    "map_of [(''action'', PStr ''extract''), (''content_id'', PStr ''ref-''),
       (''selector'', PStr ''h1'')] ''content_id'' = Some (PStr ''ref-'')"
    by simp_all
  from empty_payload_is_not_found [OF l extract_decoded m c] c show ?thesis
    by blast
qed

subsection \<open>Error prefixes and the formatting pass\<close>

lemma is_error_iff:
  "is_error (PStr raw) =
     Inr (\<exists>p \<in> {''FETCH_ERROR'', ''RENDER_ERROR'', ''EXTRACTION_ERROR'', ''AGENT_ERROR'',
                  ''MAX_STEPS_REACHED'', ''PARSE_ERROR''}. take (length p) raw = p)"
  by (simp add: is_error_def error_prefixes_def startswith_take)


lemma execute_formatted:
  assumes "run_scraping_operations env q self = PStr raw" and "is_error (PStr raw) = Inr False"
  shows "exp_execute_agent_loop env q self =
     try_then (format_output env (steps (run_scraping_loop env q self)) (PStr raw) q)
       (\<lambda>formatted. Inr (PDict [(''raw_data'', PStr raw), (''formatted'', formatted)]))"
  using assms unfolding exp_execute_agent_loop_def Let_def run_scraping_operations_def
  by simp

lemma first_response_is_answer:
  assumes "llm_message env 0 (seed_conversation env q) = Inr reply"
    and "exp_parse_llm_response env reply = Inr (PDict kvs)"
    and "map_of kvs ''action'' = Some (PStr ''response'')"
    and "map_of kvs ''content'' = Some c"
  shows "run_scraping_operations env q self = c"
proof -
  let ?st = "self\<lparr>conversation_history := seed_conversation env q\<rparr>"
  have "llm_message env 0 (conversation_history ?st) = Inr reply"
    using assms(1) by simp
  from exp_step_decoded [OF this assms(2)] assms(3,4)
  have "exp_step env 0 ?st = Return c"
    by (simp add: exp_dispatch_def catch_agent_error_def)
  then show ?thesis
    by (simp add: run_scraping_operations_def run_scraping_loop_def max_steps_def answer_def
        numeral_eq_Suc)
qed


lemma response_decoded:
  "exp_parse_llm_response (scripted S) (PStr (fenced response_text)) =
     Inr (PDict [(''action'', PStr ''response''), (''content'', PStr ''Paris'')])"
  "exp_parse_llm_response (scripted S) (PStr (fenced prefixed_response_text)) =
     Inr (PDict [(''action'', PStr ''response''),
       (''content'', PStr ''FETCH_ERROR means the site was down'')])"
  by code_simp+



lemma execute_formatting_raises:
  assumes "run_scraping_operations env q self = PStr raw" and "is_error (PStr raw) = Inr False"
    and "format_output env (steps (run_scraping_loop env q self)) (PStr raw) q = Inl e"
  shows "exp_execute_agent_loop env q self = Inl e"
  using assms by (simp add: execute_formatted)

text \<open>
  C8 does not hold of the code. The model answers \<^verbatim>\<open>Paris\<close>; the formatting request
  fails; \<^verbatim>\<open>execute_agent_loop\<close> raises that failure and returns nothing, the answer
  included.
\<close>

theorem formatting_failure_loses_answer:
  "run_scraping_operations (scripted [chat_reply (fenced response_text)]) ''q'' new_agent =
     PStr ''Paris'' \<and>
   is_error (PStr ''Paris'') = Inr False \<and>
   format_output (scripted [chat_reply (fenced response_text)]) 1 (PStr ''Paris'') ''q'' =
     Inl (OtherException ''Connection refused'') \<and>
   exp_execute_agent_loop (scripted [chat_reply (fenced response_text)]) ''q'' new_agent =
     Inl (OtherException ''Connection refused'')"
proof -
  let ?W = "scripted [chat_reply (fenced response_text)]"
  have r: "run_scraping_operations ?W ''q'' new_agent = PStr ''Paris''"
    by (rule first_response_is_answer [OF scripted_first_reply response_decoded(1)]) simp_all
  have i: "is_error (PStr ''Paris'') = Inr False"
    by (simp add: is_error_iff)
  have n: "steps (run_scraping_loop ?W ''q'' new_agent) = 1"
    by code_simp
  have f: "format_output ?W 1 (PStr ''Paris'') ''q'' = Inl (OtherException ''Connection refused'')"
    by (simp add: format_output_def scripted_def)
  have f': "format_output ?W (steps (run_scraping_loop ?W ''q'' new_agent)) (PStr ''Paris'') ''q'' =
      Inl (OtherException ''Connection refused'')"
    unfolding n by (rule f)
  show ?thesis
    by (intro conjI, rule r, rule i, rule f, rule execute_formatting_raises [OF r i f'])
qed

subsection \<open>A fetch that fails\<close>

lemma fetch_website_failure:
  "http_get env i url = Inl e \<Longrightarrow> fetch_website env i url = ''FETCH_ERROR: '' @ exn_str e"
  by (simp add: fetch_website_def)

lemma main_fetch_failure:
  assumes "llm_message env i h = Inr reply"
    and "main_parse_llm_response env reply = Inr (PDict kvs)"
    and "map_of kvs ''action'' = Some (PStr ''fetch'')"
    and "map_of kvs ''url'' = Some url"
    and "http_get env i url = Inl e"
  shows "main_step env i h =
    Continue (h @ [assistant (''Fetched content from '' @ fmt env url @ '':\<newline>''
      @ ''FETCH_ERROR: '' @ exn_str e)])"
  using assms(3,4)
  by (simp add: main_step_decoded [OF assms(1,2)] main_dispatch_def catch_agent_error_def
      fetch_website_failure [OF assms(5)])

lemma exp_fetch_failure:
  assumes "llm_message env i (conversation_history self) = Inr reply"
    and "exp_parse_llm_response env reply = Inr (PDict kvs)"
    and "map_of kvs ''action'' = Some (PStr ''fetch'')"
    and "map_of kvs ''url'' = Some url"
    and "http_get env i url = Inl e"
  shows "exp_step env i self =
    Continue (self\<lparr>conversation_history := conversation_history self @
        [assistant (''FETCHED:'' @ uuid4 env (uuid_calls self) @ ''|'' @ fmt env url)],
      content_store := (content_store self)(uuid4 env (uuid_calls self) \<mapsto>
        ''FETCH_ERROR: '' @ exn_str e),
      uuid_calls := Suc (uuid_calls self)\<rparr>)"
  using assms(3,4)
  by (simp add: exp_step_decoded [OF assms(1,2)] exp_dispatch_def catch_agent_error_def
      fetch_website_failure [OF assms(5)] store_content_def Let_def)

lemma fetch_down_decoded:
  "exp_parse_llm_response (scripted S) (PStr (fenced fetch_down_text)) =
     Inr (PDict [(''action'', PStr ''fetch''), (''url'', PStr ''http://down.test'')])"
  "main_parse_llm_response (scripted S) (PStr (fenced fetch_down_text)) =
     Inr (PDict [(''action'', PStr ''fetch''), (''url'', PStr ''http://down.test'')])"
  by code_simp+

text \<open>
  C7 holds of \<^verbatim>\<open>main.py\<close> and not of \<^verbatim>\<open>experimental.py\<close>. The model asks for a page
  and the request times out. Both loops go on to the next pass. \<^verbatim>\<open>main.py\<close> appends a
  message that holds the \<^verbatim>\<open>FETCH_ERROR:\<close> diagnostic; \<^verbatim>\<open>experimental.py\<close> stores the
  diagnostic as if it were the page and appends \<^verbatim>\<open>FETCHED:\<close> with the key and the URL.
\<close>

theorem failed_fetch_reported_as_fetched:
  "exp_step (scripted [chat_reply (fenced fetch_down_text)]) 0 new_agent =
     Continue \<lparr>conversation_history = [assistant ''FETCHED:ref-|http://down.test''],
       content_store = [''ref-'' \<mapsto> ''FETCH_ERROR: Read timed out. (read timeout=15)''],
       uuid_calls = 1\<rparr> \<and>
   main_step (scripted [chat_reply (fenced fetch_down_text)]) 0 [] =
     Continue [assistant
       ''Fetched content from http://down.test:\<newline>FETCH_ERROR: Read timed out. (read timeout=15)'']"
proof -
  let ?W = "scripted [chat_reply (fenced fetch_down_text)]"
  have g: "http_get ?W 0 (PStr ''http://down.test'') =
      Inl (OtherException ''Read timed out. (read timeout=15)'')"
    by (simp add: sample_get_def)
  have m: "map_of [(''action'', PStr ''fetch''), (''url'', PStr ''http://down.test'')] ''action'' =
      Some (PStr ''fetch'')"
    "map_of [(''action'', PStr ''fetch''), (''url'', PStr ''http://down.test'')] ''url'' =
      Some (PStr ''http://down.test'')"
    by simp_all
  have l: "llm_message ?W 0 (conversation_history new_agent) = Inr (PStr (fenced fetch_down_text))"
    by (rule scripted_first_reply)
  have x: "exp_step ?W 0 new_agent =
     Continue \<lparr>conversation_history = [assistant ''FETCHED:ref-|http://down.test''],
       content_store = [''ref-'' \<mapsto> ''FETCH_ERROR: Read timed out. (read timeout=15)''],
       uuid_calls = 1\<rparr>"
    unfolding exp_fetch_failure [OF l fetch_down_decoded(1) m g]
    by (simp add: new_agent_def fmt_def)
  have y: "main_step ?W 0 [] =
     Continue [assistant
       ''Fetched content from http://down.test:\<newline>FETCH_ERROR: Read timed out. (read timeout=15)'']"
    unfolding main_fetch_failure [OF scripted_first_reply fetch_down_decoded(2) m g]
    by (simp add: fmt_def)
  show ?thesis
    by (intro conjI, rule x, rule y)
qed

subsection \<open>What a pass can return\<close>

text \<open>
  A pass returns from the function in three ways only: with the content of a
  \<^verbatim>\<open>response\<close> action, with the invalid-action error, or with an agent error.
\<close>

lemma catch_agent_error_Return:
  "catch_agent_error r = Return v \<Longrightarrow>
   (\<exists>e. r = Inl e \<and> v = PStr (''AGENT_ERROR: '' @ exn_str e)) \<or> r = Inr (Return v)"
  by (cases r) (auto simp: catch_agent_error_def)

lemma exp_dispatch_Return:
  assumes "exp_dispatch env i self action = Inr (Return v)"
  shows "v = PStr ''ERROR: Invalid action requested'' \<or>
         (subscript action ''action'' = Inr (PStr ''response'') \<and> subscript action ''content'' = Inr v)"
proof -
  from assms obtain a where a: "subscript action ''action'' = Inr a"
    by (cases "subscript action ''action''") (auto simp: exp_dispatch_def)
  show ?thesis
  proof (cases "a = PStr ''response''")
    case True
    with assms a show ?thesis
      by (cases "subscript action ''content''") (auto simp: exp_dispatch_def)
  next
    case False
    with assms a show ?thesis
      by (auto simp: exp_dispatch_def try_then_Inr_iff split: if_splits prod.splits)
  qed
qed

lemma main_dispatch_Return:
  assumes "main_dispatch env i h action = Inr (Return v)"
  shows "v = PStr ''ERROR: Invalid action requested'' \<or>
         (subscript action ''action'' = Inr (PStr ''response'') \<and> subscript action ''content'' = Inr v)"
proof -
  from assms obtain a where a: "subscript action ''action'' = Inr a"
    by (cases "subscript action ''action''") (auto simp: main_dispatch_def)
  show ?thesis
  proof (cases "a = PStr ''response''")
    case True
    with assms a show ?thesis
      by (cases "subscript action ''content''") (auto simp: main_dispatch_def)
  next
    case False
    with assms a show ?thesis
      by (auto simp: main_dispatch_def try_then_Inr_iff split: if_splits)
  qed
qed

lemma exp_step_Return:
  assumes "exp_step env i self = Return v"
  shows "(\<exists>e. v = PStr (''AGENT_ERROR: '' @ exn_str e)) \<or>
         v = PStr ''ERROR: Invalid action requested'' \<or>
         (\<exists>reply action. llm_message env i (conversation_history self) = Inr reply \<and>
            exp_parse_llm_response env reply = Inr action \<and>
            subscript action ''action'' = Inr (PStr ''response'') \<and>
            subscript action ''content'' = Inr v)"
proof -
  from assms [unfolded exp_step_def] consider
      e where "v = PStr (''AGENT_ERROR: '' @ exn_str e)"
    | "try_then (llm_message env i (conversation_history self)) (\<lambda>reply.
         try_then (exp_parse_llm_response env reply) (exp_dispatch env i self)) = Inr (Return v)"
    using catch_agent_error_Return by blast
  then show ?thesis
  proof cases
    case 1
    then show ?thesis by blast
  next
    case 2
    then obtain reply action where "llm_message env i (conversation_history self) = Inr reply"
      and "exp_parse_llm_response env reply = Inr action"
      and "exp_dispatch env i self action = Inr (Return v)"
      by (auto simp: try_then_Inr_iff)
    with exp_dispatch_Return show ?thesis by blast
  qed
qed

lemma main_step_Return:
  assumes "main_step env i h = Return v"
  shows "(\<exists>e. v = PStr (''AGENT_ERROR: '' @ exn_str e)) \<or>
         v = PStr ''ERROR: Invalid action requested'' \<or>
         (\<exists>reply action. llm_message env i h = Inr reply \<and>
            main_parse_llm_response env reply = Inr action \<and>
            subscript action ''action'' = Inr (PStr ''response'') \<and>
            subscript action ''content'' = Inr v)"
proof -
  from assms [unfolded main_step_def] consider
      e where "v = PStr (''AGENT_ERROR: '' @ exn_str e)"
    | "try_then (llm_message env i h) (\<lambda>reply.
         try_then (main_parse_llm_response env reply) (main_dispatch env i h)) = Inr (Return v)"
    using catch_agent_error_Return by blast
  then show ?thesis
  proof cases
    case 1
    then show ?thesis by blast
  next
    case 2
    then obtain reply action where "llm_message env i h = Inr reply"
      and "main_parse_llm_response env reply = Inr action"
      and "main_dispatch env i h action = Inr (Return v)"
      by (auto simp: try_then_Inr_iff)
    with main_dispatch_Return show ?thesis by blast
  qed
qed

subsection \<open>The step bound\<close>

lemma for_range_None_steps:
  "returned (for_range body n i st) = None \<Longrightarrow> steps (for_range body n i st) = i + n"
proof (induction n arbitrary: i st)
  case 0
  show ?case by simp
next
  case (Suc n)
  show ?case
  proof (cases "body i st")
    case (Return v)
    with Suc.prems show ?thesis by simp
  next
    case (Continue st')
    with Suc.prems have "returned (for_range body n (Suc i) st') = None" by simp
    from Suc.IH [OF this] Continue show ?thesis by simp
  qed
qed

lemma for_range_one_more:
  "returned (for_range body k i st) = None \<Longrightarrow>
   body (i + k) (final (for_range body k i st)) = Continue st' \<Longrightarrow>
   returned (for_range body (Suc k) i st) = None \<and> final (for_range body (Suc k) i st) = st'"
proof (induction k arbitrary: i st)
  case 0
  then show ?case by simp
next
  case (Suc k)
  show ?case
  proof (cases "body i st")
    case (Return v)
    with Suc.prems(1) show ?thesis by simp
  next
    case (Continue s1)
    with Suc.prems have a: "returned (for_range body k (Suc i) s1) = None"
      and b: "body (Suc i + k) (final (for_range body k (Suc i) s1)) = Continue st'"
      by simp_all
    from Suc.IH [OF a b] Continue show ?thesis by simp
  qed
qed

lemma for_range_falls_through:
  assumes "\<And>k v. k < n \<Longrightarrow> returned (for_range body k i st) = None \<Longrightarrow>
             body (i + k) (final (for_range body k i st)) \<noteq> Return v"
  shows "returned (for_range body n i st) = None \<and> steps (for_range body n i st) = i + n"
proof -
  have "returned (for_range body m i st) = None" if "m \<le> n" for m
    using that
  proof (induction m)
    case 0
    show ?case by simp
  next
    case (Suc m)
    then have p: "returned (for_range body m i st) = None" and m: "m < n"
      by simp_all
    from assms [OF m p] obtain st' where
      "body (i + m) (final (for_range body m i st)) = Continue st'"
      by (cases "body (i + m) (final (for_range body m i st))") auto
    from for_range_one_more [OF p this] show ?case by simp
  qed
  then have "returned (for_range body n i st) = None" by simp
  then show ?thesis by (simp add: for_range_None_steps)
qed


text \<open>
  C1. Whatever the model replies, the loop of either file begins at most 5 passes. A
  run is followed through its own states: the loop cut to \<open>k\<close> passes returns nothing
  exactly when the first \<open>k\<close> passes of the run fell through, and then leaves the state
  in which pass \<open>k\<close> begins. When no pass of the run returns (no \<^verbatim>\<open>response\<close> action,
  no invalid action, no exception), the loop runs all 5 passes and the function returns
  \<^verbatim>\<open>MAX_STEPS_REACHED: Processing limit exceeded\<close>. When pass \<open>k\<close> of the run returns a
  value, the loop ends there, after \<open>k + 1\<close> passes, and the function returns that value.
\<close>

theorem agent_loop_step_bound:
  "steps (main_loop env q) \<le> 5 \<and>
   steps (run_scraping_loop env q self) \<le> 5 \<and>
   ((\<forall>k v. k < 5 \<and> returned (for_range (main_step env) k 0 (seed_conversation env q)) = None \<longrightarrow>
       main_step env k (final (for_range (main_step env) k 0 (seed_conversation env q))) \<noteq>
         Return v) \<longrightarrow>
      steps (main_loop env q) = 5 \<and>
      main_execute_agent_loop env q = PStr ''MAX_STEPS_REACHED: Processing limit exceeded'') \<and>
   ((\<forall>k v. k < 5 \<and>
       returned (for_range (exp_step env) k 0
         (self\<lparr>conversation_history := seed_conversation env q\<rparr>)) = None \<longrightarrow>
       exp_step env k (final (for_range (exp_step env) k 0
         (self\<lparr>conversation_history := seed_conversation env q\<rparr>))) \<noteq> Return v) \<longrightarrow>
      steps (run_scraping_loop env q self) = 5 \<and>
      run_scraping_operations env q self = PStr ''MAX_STEPS_REACHED: Processing limit exceeded'') \<and>
   (\<forall>k v. k < 5 \<and> returned (for_range (main_step env) k 0 (seed_conversation env q)) = None \<and>
       main_step env k (final (for_range (main_step env) k 0 (seed_conversation env q))) =
         Return v \<longrightarrow>
      steps (main_loop env q) = Suc k \<and> main_execute_agent_loop env q = v) \<and>
   (\<forall>k v. k < 5 \<and>
       returned (for_range (exp_step env) k 0
         (self\<lparr>conversation_history := seed_conversation env q\<rparr>)) = None \<and>
       exp_step env k (final (for_range (exp_step env) k 0
         (self\<lparr>conversation_history := seed_conversation env q\<rparr>))) = Return v \<longrightarrow>
      steps (run_scraping_loop env q self) = Suc k \<and> run_scraping_operations env q self = v)"
proof -
  let ?h = "seed_conversation env q"
  let ?s = "self\<lparr>conversation_history := seed_conversation env q\<rparr>"
  have a: "steps (main_loop env q) \<le> 5"
    using for_range_steps_le [of "main_step env" max_steps 0]
    by (simp add: main_loop_def max_steps_def)
  have b: "steps (run_scraping_loop env q self) \<le> 5"
    using for_range_steps_le [of "exp_step env" max_steps 0]
    by (simp add: run_scraping_loop_def max_steps_def)
  have c: "steps (main_loop env q) = 5 \<and>
      main_execute_agent_loop env q = PStr ''MAX_STEPS_REACHED: Processing limit exceeded''"
    if h: "\<forall>k v. k < 5 \<and> returned (for_range (main_step env) k 0 ?h) = None \<longrightarrow>
       main_step env k (final (for_range (main_step env) k 0 ?h)) \<noteq> Return v"
  proof -
    have "returned (for_range (main_step env) 5 0 ?h) = None \<and>
          steps (for_range (main_step env) 5 0 ?h) = 0 + 5"
      by (rule for_range_falls_through) (use h in simp)
    then show ?thesis
      by (simp add: main_loop_def main_execute_agent_loop_def max_steps_def answer_def)
  qed
  have d: "steps (run_scraping_loop env q self) = 5 \<and>
      run_scraping_operations env q self = PStr ''MAX_STEPS_REACHED: Processing limit exceeded''"
    if h: "\<forall>k v. k < 5 \<and> returned (for_range (exp_step env) k 0 ?s) = None \<longrightarrow>
       exp_step env k (final (for_range (exp_step env) k 0 ?s)) \<noteq> Return v"
  proof -
    have "returned (for_range (exp_step env) 5 0 ?s) = None \<and>
          steps (for_range (exp_step env) 5 0 ?s) = 0 + 5"
      by (rule for_range_falls_through) (use h in simp)
    then show ?thesis
      by (simp add: run_scraping_loop_def run_scraping_operations_def max_steps_def answer_def)
  qed
  have e: "steps (main_loop env q) = Suc k \<and> main_execute_agent_loop env q = v"
    if h: "k < 5 \<and> returned (for_range (main_step env) k 0 ?h) = None \<and>
       main_step env k (final (for_range (main_step env) k 0 ?h)) = Return v" for k v
  proof -
    from h have "returned (for_range (main_step env) 5 0 ?h) = Some v \<and>
        steps (for_range (main_step env) 5 0 ?h) = Suc (0 + k)"
      by (intro for_range_returns_in) simp_all
    then show ?thesis
      by (simp add: main_loop_def main_execute_agent_loop_def max_steps_def answer_def)
  qed
  have f: "steps (run_scraping_loop env q self) = Suc k \<and> run_scraping_operations env q self = v"
    if h: "k < 5 \<and> returned (for_range (exp_step env) k 0 ?s) = None \<and>
       exp_step env k (final (for_range (exp_step env) k 0 ?s)) = Return v" for k v
  proof -
    from h have "returned (for_range (exp_step env) 5 0 ?s) = Some v \<and>
        steps (for_range (exp_step env) 5 0 ?s) = Suc (0 + k)"
      by (intro for_range_returns_in) simp_all
    then show ?thesis
      by (simp add: run_scraping_loop_def run_scraping_operations_def max_steps_def answer_def)
  qed
  from a b c d e f show ?thesis
    by blast
qed

lemma scripted_reply:
  "i < length script \<Longrightarrow> script ! i = chat_reply t \<Longrightarrow>
   llm_message (scripted script) i h = Inr (PStr t)"
  by (simp add: llm_message_def scripted_def chat_reply_def chat_content_def)

lemma scripted_used_up:
  "length script \<le> i \<Longrightarrow>
   llm_message (scripted script) i h = Inl (OtherException ''Connection refused'')"
  by (simp add: llm_message_def scripted_def)

lemma extract_bare_decoded:
  "exp_parse_llm_response (scripted S) (PStr (fenced extract_bare_text)) =
     Inr (PDict [(''action'', PStr ''extract''), (''content_id'', PStr ''k'')])"
  by code_simp

lemma response_decoded_main:
  "main_parse_llm_response (scripted S) (PStr (fenced response_text)) =
     Inr (PDict [(''action'', PStr ''response''), (''content'', PStr ''Paris'')])"
  by code_simp

lemma always_extract_step:
  assumes "j < 5" and "content_store s ''k'' = None"
  shows "exp_step always_extract j s = Continue (extracted always_extract s [''CONTENT_NOT_FOUND''])"
proof -
  have l: "llm_message always_extract j (conversation_history s) =
      Inr (PStr (fenced extract_bare_text))"
    unfolding always_extract_def using assms(1) by (intro scripted_reply) simp_all
  have p: "exp_parse_llm_response always_extract (PStr (fenced extract_bare_text)) =
     Inr (PDict [(''action'', PStr ''extract''), (''content_id'', PStr ''k'')])"
    unfolding always_extract_def by (rule extract_bare_decoded)
  show ?thesis
    by (rule extract_step_not_found [OF l p _ _ disjI1 [OF assms(2)]]) simp_all
qed

lemma always_extract_keeps_store:
  assumes "content_store s ''k'' = None" and "exp_step always_extract i s = Continue s'"
  shows "content_store s' ''k'' = None"
proof (cases "i < 5")
  case True
  from always_extract_step [OF True assms(1)] assms show ?thesis
    by (simp add: extracted_def)
next
  case False
  then have "llm_message always_extract i (conversation_history s) =
      Inl (OtherException ''Connection refused'')"
    unfolding always_extract_def by (intro scripted_used_up) simp
  with assms(2) show ?thesis
    by (simp add: exp_step_def catch_agent_error_def)
qed

lemma always_extract_never_returns:
  assumes "k < 5"
  shows "exp_step always_extract k (final (for_range (exp_step always_extract) k 0
           (new_agent\<lparr>conversation_history := seed_conversation always_extract ''q''\<rparr>))) \<noteq>
         Return v"
proof -
  have "content_store (final (for_range (exp_step always_extract) k 0
           (new_agent\<lparr>conversation_history := seed_conversation always_extract ''q''\<rparr>))) ''k'' = None"
    by (rule for_range_keeps_invariant [where P = "\<lambda>s. content_store s ''k'' = None"])
      (use always_extract_keeps_store in \<open>auto simp: new_agent_def\<close>)
  from always_extract_step [OF assms this] show ?thesis
    by simp
qed

lemma always_extract_with_payload:
  "exp_step always_extract 0 (new_agent\<lparr>content_store := [''k'' \<mapsto> ''page'']\<rparr>) =
     Return (PStr (''AGENT_ERROR: '' @ quoted ''selector''))"
proof -
  have l: "llm_message always_extract 0
      (conversation_history (new_agent\<lparr>content_store := [''k'' \<mapsto> ''page'']\<rparr>)) =
      Inr (PStr (fenced extract_bare_text))"
    unfolding always_extract_def by (intro scripted_reply) simp_all
  have p: "exp_parse_llm_response always_extract (PStr (fenced extract_bare_text)) =
     Inr (PDict [(''action'', PStr ''extract''), (''content_id'', PStr ''k'')])"
    unfolding always_extract_def by (rule extract_bare_decoded)
  show ?thesis
    unfolding exp_step_decoded [OF l p]
    by (simp add: exp_dispatch_def catch_agent_error_def)
qed

lemma fetch_then_answer_main:
  "\<exists>h'. main_step fetch_then_answer 0 h = Continue h'"
  "main_step fetch_then_answer (Suc 0) h = Return (PStr ''Paris'')"
proof -
  have l0: "llm_message fetch_then_answer 0 h = Inr (PStr (fenced fetch_text))"
    unfolding fetch_then_answer_def by (intro scripted_reply) simp_all
  have l1: "llm_message fetch_then_answer (Suc 0) h = Inr (PStr (fenced response_text))"
    unfolding fetch_then_answer_def by (intro scripted_reply) simp_all
  have p0: "main_parse_llm_response fetch_then_answer (PStr (fenced fetch_text)) =
     Inr (PDict [(''action'', PStr ''fetch''), (''url'', PStr ''http://example.test'')])"
    unfolding fetch_then_answer_def by (rule fetch_reply_main)
  have p1: "main_parse_llm_response fetch_then_answer (PStr (fenced response_text)) =
     Inr (PDict [(''action'', PStr ''response''), (''content'', PStr ''Paris'')])"
    unfolding fetch_then_answer_def by (rule response_decoded_main)
  show "\<exists>h'. main_step fetch_then_answer 0 h = Continue h'"
    unfolding main_step_decoded [OF l0 p0]
    by (simp add: main_dispatch_def catch_agent_error_def)
  show "main_step fetch_then_answer (Suc 0) h = Return (PStr ''Paris'')"
    unfolding main_step_decoded [OF l1 p1]
    by (simp add: main_dispatch_def catch_agent_error_def)
qed

lemma fetch_then_answer_exp:
  "\<exists>s'. exp_step fetch_then_answer 0 s = Continue s'"
  "exp_step fetch_then_answer (Suc 0) s = Return (PStr ''Paris'')"
proof -
  have l0: "llm_message fetch_then_answer 0 (conversation_history s) = Inr (PStr (fenced fetch_text))"
    unfolding fetch_then_answer_def by (intro scripted_reply) simp_all
  have l1: "llm_message fetch_then_answer (Suc 0) (conversation_history s) =
      Inr (PStr (fenced response_text))"
    unfolding fetch_then_answer_def by (intro scripted_reply) simp_all
  have p0: "exp_parse_llm_response fetch_then_answer (PStr (fenced fetch_text)) =
     Inr (PDict [(''action'', PStr ''fetch''), (''url'', PStr ''http://example.test'')])"
    unfolding fetch_then_answer_def by (rule fetch_reply_exp)
  have p1: "exp_parse_llm_response fetch_then_answer (PStr (fenced response_text)) =
     Inr (PDict [(''action'', PStr ''response''), (''content'', PStr ''Paris'')])"
    unfolding fetch_then_answer_def by (rule response_decoded(1))
  show "\<exists>s'. exp_step fetch_then_answer 0 s = Continue s'"
    unfolding exp_step_decoded [OF l0 p0]
    by (simp add: exp_dispatch_def catch_agent_error_def store_content_def Let_def)
  show "exp_step fetch_then_answer (Suc 0) s = Return (PStr ''Paris'')"
    unfolding exp_step_decoded [OF l1 p1]
    by (simp add: exp_dispatch_def catch_agent_error_def)
qed

theorem agent_loop_step_bound_witness:
  "steps (main_loop always_fetch ''q'') = 5 \<and>
   main_execute_agent_loop always_fetch ''q'' =
     PStr ''MAX_STEPS_REACHED: Processing limit exceeded'' \<and>
   steps (run_scraping_loop always_extract ''q'' new_agent) = 5 \<and>
   run_scraping_operations always_extract ''q'' new_agent =
     PStr ''MAX_STEPS_REACHED: Processing limit exceeded'' \<and>
   exp_step always_extract 0 (new_agent\<lparr>content_store := [''k'' \<mapsto> ''page'']\<rparr>) =
     Return (PStr (''AGENT_ERROR: '' @ quoted ''selector'')) \<and>
   steps (main_loop fetch_then_answer ''q'') = Suc (Suc 0) \<and>
   main_execute_agent_loop fetch_then_answer ''q'' = PStr ''Paris'' \<and>
   steps (run_scraping_loop fetch_then_answer ''q'' new_agent) = Suc (Suc 0) \<and>
   run_scraping_operations fetch_then_answer ''q'' new_agent = PStr ''Paris''"
proof -
  note F = agent_loop_step_bound [where env = always_fetch and q = "''q''" and self = new_agent]
  note X = agent_loop_step_bound [where env = always_extract and q = "''q''" and self = new_agent]
  note A = agent_loop_step_bound [where env = fetch_then_answer and q = "''q''" and self = new_agent]
  have m: "\<forall>k v. k < 5 \<and>
      returned (for_range (main_step always_fetch) k 0 (seed_conversation always_fetch ''q'')) = None \<longrightarrow>
      main_step always_fetch k
        (final (for_range (main_step always_fetch) k 0 (seed_conversation always_fetch ''q''))) \<noteq>
      Return v"
  proof (intro allI impI)
    fix k v
    assume "k < 5 \<and>
      returned (for_range (main_step always_fetch) k 0 (seed_conversation always_fetch ''q'')) = None"
    then obtain h' where "main_step always_fetch k
        (final (for_range (main_step always_fetch) k 0 (seed_conversation always_fetch ''q''))) =
        Continue h'"
      using always_fetch_main_step by blast
    then show "main_step always_fetch k
        (final (for_range (main_step always_fetch) k 0 (seed_conversation always_fetch ''q''))) \<noteq>
      Return v"
      by simp
  qed
  have x: "\<forall>k v. k < 5 \<and>
      returned (for_range (exp_step always_extract) k 0
        (new_agent\<lparr>conversation_history := seed_conversation always_extract ''q''\<rparr>)) = None \<longrightarrow>
      exp_step always_extract k (final (for_range (exp_step always_extract) k 0
        (new_agent\<lparr>conversation_history := seed_conversation always_extract ''q''\<rparr>))) \<noteq> Return v"
    using always_extract_never_returns by blast
  note w1 = F [THEN conjunct2, THEN conjunct2, THEN conjunct1, THEN mp, OF m]
  note w2 = X [THEN conjunct2, THEN conjunct2, THEN conjunct2, THEN conjunct1, THEN mp, OF x]
  obtain h' where h': "main_step fetch_then_answer 0 (seed_conversation fetch_then_answer ''q'') =
      Continue h'"
    using fetch_then_answer_main(1) by blast
  have am: "Suc 0 < 5 \<and>
      returned (for_range (main_step fetch_then_answer) (Suc 0) 0
        (seed_conversation fetch_then_answer ''q'')) = None \<and>
      main_step fetch_then_answer (Suc 0) (final (for_range (main_step fetch_then_answer) (Suc 0) 0
        (seed_conversation fetch_then_answer ''q''))) = Return (PStr ''Paris'')"
    by (simp add: h' fetch_then_answer_main(2))
  obtain s' where s': "exp_step fetch_then_answer 0
      (new_agent\<lparr>conversation_history := seed_conversation fetch_then_answer ''q''\<rparr>) = Continue s'"
    using fetch_then_answer_exp(1) by blast
  have ax: "Suc 0 < 5 \<and>
      returned (for_range (exp_step fetch_then_answer) (Suc 0) 0
        (new_agent\<lparr>conversation_history := seed_conversation fetch_then_answer ''q''\<rparr>)) = None \<and>
      exp_step fetch_then_answer (Suc 0) (final (for_range (exp_step fetch_then_answer) (Suc 0) 0
        (new_agent\<lparr>conversation_history := seed_conversation fetch_then_answer ''q''\<rparr>))) =
      Return (PStr ''Paris'')"
    by (simp add: s' fetch_then_answer_exp(2))
  note w3 = A [THEN conjunct2, THEN conjunct2, THEN conjunct2, THEN conjunct2, THEN conjunct1,
      THEN spec, THEN spec, THEN mp, OF am]
  note w4 = A [THEN conjunct2, THEN conjunct2, THEN conjunct2, THEN conjunct2, THEN conjunct2,
      THEN spec, THEN spec, THEN mp, OF ax]
  from w1 w2 w3 w4 always_extract_with_payload show ?thesis
    by (intro conjI) simp_all
qed

end
